theory Spec2Isabelle
  imports Main
begin

section \<open>JSON values and their serialised size\<close>

text \<open>
  The store keeps JSON-serialisable values. Strings are sequences of UTF-8 bytes. A number
  is an integer and stands for the double of that value; within the safe range, of
  magnitude at most \<open>2 ^ 53\<close>, doubles hold integers exactly and \<open>JSON.stringify\<close> prints
  them in plain decimal. \<open>stringify\<close> follows \<open>JSON.stringify\<close> without indentation;
  \<open>Buffer.from(text).length\<close> is the number of bytes of the text, here the length of the
  byte list.
\<close>

datatype json =
    JNull
  | JBool bool
  | JNum int
  | JStr string
  | JArr "json list"
  | JObj "(string \<times> json) list"

definition hex_digit :: "nat \<Rightarrow> char" where
  "hex_digit d = (if d < 10 then char_of (48 + d) else char_of (87 + d))"

text \<open>The escapes of \<open>JSON.stringify\<close>: quote, backslash, the five short control escapes,
  \<open>\\u00XX\<close> for the other control characters; every other byte is copied.\<close>

definition escape_char :: "char \<Rightarrow> string" where
  "escape_char c =
     (let n = (of_char c :: nat) in
      if n = 34 then [CHR 0x5C, CHR 0x22]
      else if n = 92 then [CHR 0x5C, CHR 0x5C]
      else if n = 8 then [CHR 0x5C, CHR ''b'']
      else if n = 9 then [CHR 0x5C, CHR ''t'']
      else if n = 10 then [CHR 0x5C, CHR ''n'']
      else if n = 12 then [CHR 0x5C, CHR ''f'']
      else if n = 13 then [CHR 0x5C, CHR ''r'']
      else if n < 32 then [CHR 0x5C, CHR ''u'', CHR ''0'', CHR ''0'', hex_digit (n div 16), hex_digit (n mod 16)]
      else [c])"

definition quote :: "string \<Rightarrow> string" where
  "quote s = [CHR 0x22] @ concat (map escape_char s) @ [CHR 0x22]"

text \<open>The decimal digits of a number that is not negative, and the decimal text of an integer.\<close>

function digits :: "int \<Rightarrow> string" where
  "digits n = (if n < 10 then [char_of (48 + n)] else digits (n div 10) @ [char_of (48 + n mod 10)])"
  by pat_completeness auto
termination
  by (relation "measure nat") auto

declare digits.simps [simp del]

definition show_int :: "int \<Rightarrow> string" where
  "show_int i = (if i < 0 then CHR ''-'' # digits (- i) else digits i)"

fun stringify :: "json \<Rightarrow> string"
  and stringify_elems :: "json list \<Rightarrow> string"
  and stringify_props :: "(string \<times> json) list \<Rightarrow> string" where
  "stringify JNull = ''null''"
| "stringify (JBool b) = (if b then ''true'' else ''false'')"
| "stringify (JNum i) = show_int i"
| "stringify (JStr s) = quote s"
| "stringify (JArr xs) = ''['' @ stringify_elems xs @ '']''"
| "stringify (JObj ps) = ''{'' @ stringify_props ps @ ''}''"
| "stringify_elems [] = []"
| "stringify_elems [x] = stringify x"
| "stringify_elems (x # y # ys) = stringify x @ '','' @ stringify_elems (y # ys)"
| "stringify_props [] = []"
| "stringify_props [(k, v)] = quote k @ '':'' @ stringify v"
| "stringify_props ((k, v) # p # ps) = quote k @ '':'' @ stringify v @ '','' @ stringify_props (p # ps)"

text \<open>\<open>Buffer.from(JSON.stringify(x)).length\<close>\<close>

definition byteLength :: "json \<Rightarrow> int" where
  "byteLength j = int (length (stringify j))"

text \<open>\<open>key.length\<close> counts UTF-16 code units: one for each code point, two for each code point
  outside the basic plane (a four-byte UTF-8 sequence).\<close>

definition js_length :: "string \<Rightarrow> int" where
  "js_length s =
     int (length (filter (\<lambda>c. \<not> (128 \<le> (of_char c :: nat) \<and> (of_char c :: nat) < 192)) s)
        + length (filter (\<lambda>c. 240 \<le> (of_char c :: nat)) s))"

subsection \<open>Double arithmetic on integers\<close>

text \<open>
  JavaScript adds and multiplies numbers as IEEE-754 doubles: the exact result is rounded
  to the nearest double, a tie to the one with the even mantissa. \<open>ulp a\<close> is the distance
  between the doubles around an integer \<open>a\<close> that is not negative (1 below \<open>2 ^ 53\<close>, 2
  below \<open>2 ^ 54\<close>, and so on), \<open>to_double\<close> rounds an integer to the nearest double.
  Results of magnitude \<open>2 ^ 1024\<close> and more (\<open>Infinity\<close>) are outside the model.
\<close>

function ulp :: "int \<Rightarrow> int" where
  "ulp a = (if a < 2 ^ 53 then 1 else 2 * ulp (a div 2))"
  by pat_completeness auto
termination
  by (relation "measure nat") auto

declare ulp.simps [simp del]

definition to_double :: "int \<Rightarrow> int" where
  "to_double x =
     (let a = \<bar>x\<bar>; s = ulp a; q = a div s; r = a mod s;
          q' = (if 2 * r > s \<or> (2 * r = s \<and> odd q) then q + 1 else q)
      in sgn x * (q' * s))"

definition js_add :: "int \<Rightarrow> int \<Rightarrow> int" where
  "js_add x y = to_double (x + y)"

definition js_mul :: "int \<Rightarrow> int \<Rightarrow> int" where
  "js_mul x y = to_double (x * y)"

section \<open>The store\<close>

text \<open>
  An entry of the index is the object \<open>{ value, expiry }\<close>; \<open>expiry\<close> is \<open>null\<close> or an
  absolute time in milliseconds. The index \<open>data\<close> and the lock table \<open>lock\<close> are
  JavaScript Maps: association lists in insertion order with distinct keys.
\<close>

record entry =
  val :: json
  expiry :: "int option"

type_synonym index = "(string \<times> entry) list"

text \<open>
  The errors the store raises, one constructor for each message of the source:
  \<^item> \<open>InvalidKey\<close>: "Key cannot exceed 32 characters" (keys are strings by type);
  \<^item> \<open>ValueTooLarge\<close>: "Value size cannot exceed 16KB";
  \<^item> \<open>QuotaExceeded\<close>: "Data file would exceed ... bytes limit", "Data file exceeds 1GB limit";
  \<^item> \<open>KeyExists\<close>: "Key already exists";
  \<^item> \<open>KeyNotFound False\<close>: "Key not found"; \<open>KeyNotFound True\<close>: "Key not found (expired)";
  \<^item> \<open>BatchTooLarge\<close>: "Batch size cannot exceed 1000 items";
  \<^item> \<open>LockTimeout key\<close>: "Failed to acquire lock for key: ...";
  \<^item> \<open>PermissionDenied path\<close>: "Permission denied: Cannot write to ...";
  \<^item> \<open>IOFailure code\<close>: an error of the file system, passed on as it is;
  \<^item> \<open>PersistenceFailed e\<close>: "Failed to save data: ...", wrapping the error of the save;
  \<^item> \<open>ParseError\<close>: the SyntaxError of \<open>JSON.parse\<close>;
  \<^item> \<open>StoreBusy\<close>: "File is being used by another process".
\<close>

datatype io_error = EACCES | ENOENT | ELOCKED | EIO

datatype error =
    InvalidKey
  | ValueTooLarge
  | QuotaExceeded
  | KeyExists
  | KeyNotFound bool
  | BatchTooLarge
  | LockTimeout string
  | PermissionDenied string
  | IOFailure io_error
  | PersistenceFailed error
  | ParseError
  | StoreBusy

text \<open>
  A file holds whitespace only, the text \<open>JSON.stringify\<close> wrote for an object whose
  properties are entries (\<open>Document\<close>, the properties in the order of the text), or text
  that \<open>JSON.parse\<close> rejects. \<open>JSON.parse\<close> of a \<open>Document\<close> gives the object back.
\<close>

datatype file_content = Whitespace nat | Document index | Malformed nat

text \<open>
  The fields of the class. \<open>saveTimeout\<close> says whether the timer of the debounced save
  is armed. \<open>savePromise\<close> is \<open>None\<close> for \<open>null\<close>; while a save started by \<open>queueSave\<close> is
  in flight it holds what that save fixed when it started: the quota error it will
  reject with, or the serialisation it is writing with the total size it computed.
  \<open>saveQueue\<close> is never filled by the source and is left out.
\<close>

record store =
  filePath :: string
  data :: index
  lock :: "(string \<times> bool) list"
  currentSize :: int
  isDirty :: bool
  saveTimeout :: bool
  maxBatchSize :: int
  maxFileSize :: int
  maxValueSize :: int
  maxKeyLength :: int
  lockInstance :: bool
  savePromise :: "(error + file_content \<times> int) option"

text \<open>\<open>Map.prototype.get\<close>, \<open>set\<close> and \<open>delete\<close>; \<open>has(key)\<close> is \<open>Map_get m key \<noteq> None\<close>.\<close>

abbreviation Map_get :: "(string \<times> 'a) list \<Rightarrow> string \<Rightarrow> 'a option" where
  "Map_get m k \<equiv> map_of m k"

fun Map_set :: "string \<Rightarrow> 'a \<Rightarrow> (string \<times> 'a) list \<Rightarrow> (string \<times> 'a) list" where
  "Map_set k v [] = [(k, v)]"
| "Map_set k v ((k', v') # m) = (if k' = k then (k, v) # m else (k', v') # Map_set k v m)"

fun Map_delete :: "string \<Rightarrow> (string \<times> 'a) list \<Rightarrow> (string \<times> 'a) list" where
  "Map_delete k [] = []"
| "Map_delete k ((k', v') # m) = (if k' = k then Map_delete k m else (k', v') # Map_delete k m)"

subsection \<open>Validation and size estimation\<close>

text \<open>Sizes are byte counts, far inside the safe range, and are added as integers.\<close>

definition validateKey :: "store \<Rightarrow> string \<Rightarrow> error + unit" where
  "validateKey st key = (if js_length key > maxKeyLength st then Inl InvalidKey else Inr ())"

definition validateValue :: "store \<Rightarrow> json \<Rightarrow> error + unit" where
  "validateValue st v = (if byteLength v > maxValueSize st then Inl ValueTooLarge else Inr ())"

definition estimateEntrySize :: "string \<Rightarrow> json \<Rightarrow> int" where
  "estimateEntrySize key v = byteLength (JObj [(key, JObj [(''value'', v), (''expiry'', JNull)])])"

subsection \<open>Expiry tests\<close>

text \<open>
  The source tests an expiry with JavaScript truthiness: \<open>!e.expiry || e.expiry > now\<close> for
  an entry that still counts, \<open>e.expiry && e.expiry <= now\<close> for one that has expired.
  \<open>null\<close> and the number \<open>0\<close> are both falsy.
\<close>

definition truthy :: "int option \<Rightarrow> bool" where
  "truthy x = (case x of None \<Rightarrow> False | Some n \<Rightarrow> n \<noteq> 0)"

definition unexpired :: "int \<Rightarrow> entry \<Rightarrow> bool" where
  "unexpired now e = (\<not> truthy (expiry e) \<or> (case expiry e of None \<Rightarrow> False | Some t \<Rightarrow> t > now))"

definition expired :: "int \<Rightarrow> entry \<Rightarrow> bool" where
  "expired now e = (truthy (expiry e) \<and> (case expiry e of None \<Rightarrow> False | Some t \<Rightarrow> t \<le> now))"

text \<open>\<open>ttl ? Date.now() + ttl * 1000 : null\<close>, with \<open>ttl\<close> a number of seconds or absent; the
  product and the sum are computed in doubles.\<close>

definition compute_expiry :: "int \<Rightarrow> int option \<Rightarrow> int option" where
  "compute_expiry now ttl = (if truthy ttl then Some (js_add now (js_mul (the ttl) 1000)) else None)"

subsection \<open>Per-key locks\<close>

text \<open>
  \<open>acquireLock\<close> looks at the lock table, sleeps 10 ms when the key is held, and gives up
  at the 101st look. Other operations of the process run during the sleeps, so the loop
  is given the store as it is at each look: \<open>seen n\<close> is the store at the look after \<open>n\<close>
  sleeps. The lock is taken in the store of the first look that finds the key free, and
  the caller goes on from there: what is due to run before the caller continues cannot
  take or release the lock of the key and is counted to the time before that look.
  \<open>acquireLock st key\<close> is the loop for an operation that runs alone: the store is \<open>st\<close> at
  every look.
\<close>

function acquireLoop :: "(nat \<Rightarrow> store) \<Rightarrow> string \<Rightarrow> nat \<Rightarrow> error + store" where
  "acquireLoop seen key attempts =
     (if Map_get (lock (seen attempts)) key = Some True
      then (if attempts \<ge> 100 then Inl (LockTimeout key)
            else acquireLoop seen key (Suc attempts))
      else Inr ((seen attempts)\<lparr>lock := Map_set key True (lock (seen attempts))\<rparr>))"
  by pat_completeness auto
termination
  by (relation "measure (\<lambda>(seen, key, attempts). 100 - attempts)") auto

declare acquireLoop.simps [simp del]

definition acquireLock :: "store \<Rightarrow> string \<Rightarrow> error + store" where
  "acquireLock st key = acquireLoop (\<lambda>n. st) key 0"

definition releaseLock :: "store \<Rightarrow> string \<Rightarrow> store" where
  "releaseLock st key = st\<lparr>lock := Map_delete key (lock st)\<rparr>"

definition scheduleSave :: "store \<Rightarrow> store" where
  "scheduleSave st = st\<lparr>isDirty := True, saveTimeout := True\<rparr>"

section \<open>The file system\<close>

text \<open>The file system maps a path to the content of the file there.\<close>

type_synonym fs = "string \<Rightarrow> file_content option"

text \<open>Putting a content (or nothing) at a path, and renaming a file over another path.\<close>

definition fs_put :: "fs \<Rightarrow> string \<Rightarrow> file_content option \<Rightarrow> fs" where
  "fs_put fs path c = (\<lambda>p. if p = path then c else fs p)"

definition fs_rename :: "fs \<Rightarrow> string \<Rightarrow> string \<Rightarrow> fs" where
  "fs_rename fs src dst = (\<lambda>p. if p = src then None else if p = dst then fs src else fs p)"

definition entry_json :: "entry \<Rightarrow> json" where
  "entry_json e =
     JObj [(''value'', val e), (''expiry'', (case expiry e of None \<Rightarrow> JNull | Some t \<Rightarrow> JNum t))]"

text \<open>\<open>stats.size\<close>: the number of bytes of the file.\<close>

fun file_size :: "file_content \<Rightarrow> int" where
  "file_size (Whitespace n) = int n"
| "file_size (Document es) = byteLength (JObj (map (\<lambda>(k, e). (k, entry_json e)) es))"
| "file_size (Malformed n) = int n"

text \<open>
  What the file system and the advisory file lock answer during one operation:
  \<^item> \<open>write_result\<close>: \<open>writeFile\<close> on the temporary path succeeds, or fails with a code and
    leaves some residue (or nothing) at that path;
  \<^item> \<open>rename_error\<close>, \<open>unlink_error\<close>: the code \<open>rename\<close> and \<open>unlink\<close> fail with, if they do;
  \<^item> \<open>read_error\<close>: the code \<open>stat\<close> or \<open>readFile\<close> fails with for a reason other than a
    missing file, if they do;
  \<^item> \<open>init_write_error\<close>: the code the first \<open>writeFile\<close> of \<open>initialize\<close> fails with;
  \<^item> \<open>flock_error\<close>: the code \<open>lockfile.lock\<close> fails with (\<open>ELOCKED\<close> while another store
    holds the lock of the file).
\<close>

datatype write_outcome = Written | WriteFailed io_error "file_content option"

record io =
  write_result :: write_outcome
  rename_error :: "io_error option"
  unlink_error :: "io_error option"
  read_error :: "io_error option"
  init_write_error :: "io_error option"
  flock_error :: "io_error option"

definition io_ok :: io where
  "io_ok = \<lparr>write_result = Written, rename_error = None, unlink_error = None,
            read_error = None, init_write_error = None, flock_error = None\<rparr>"

section \<open>Saving and loading\<close>

text \<open>
  \<open>fileData[key] = value\<close> on the plain object \<open>fileData\<close>: an own property is created or
  overwritten, except for the key \<open>__proto__\<close>, where the assignment calls the setter
  inherited from \<open>Object.prototype\<close>: the entry (an object) becomes the prototype of
  \<open>fileData\<close> and no own property is created, so \<open>JSON.stringify\<close> does not write it.
  The order in which a JavaScript object enumerates number-like keys is not modelled;
  nothing below depends on the order of the properties.
\<close>

definition obj_assign :: "string \<Rightarrow> 'a \<Rightarrow> (string \<times> 'a) list \<Rightarrow> (string \<times> 'a) list" where
  "obj_assign key v obj = (if key = ''__proto__'' then obj else Map_set key v obj)"

text \<open>The loop of \<open>saveData\<close> over \<open>this.data.entries()\<close>, on \<open>(fileData, totalSize)\<close>.\<close>

fun saveLoop :: "index \<Rightarrow> index \<times> int \<Rightarrow> index \<times> int" where
  "saveLoop [] acc = acc"
| "saveLoop ((key, item) # rest) (fileData, totalSize) =
     saveLoop rest (obj_assign key item fileData, totalSize + estimateEntrySize key (val item))"

text \<open>\<open>saveData\<close> up to its first \<open>await\<close>: the serialisation and the quota test.\<close>

definition saveData_begin :: "store \<Rightarrow> error + (file_content \<times> int)" where
  "saveData_begin st =
     (case saveLoop (data st) ([], 0) of (fileData, totalSize) \<Rightarrow>
        if totalSize > maxFileSize st then Inl QuotaExceeded
        else Inr (Document fileData, totalSize))"

definition fs_error :: "store \<Rightarrow> io_error \<Rightarrow> error" where
  "fs_error st c = (if c = EACCES then PermissionDenied (filePath st) else IOFailure c)"

text \<open>\<open>saveData\<close> from \<open>writeFile\<close> on: write the temporary file, rename it, update the cache.\<close>

definition saveData_finish :: "store \<Rightarrow> fs \<Rightarrow> io \<Rightarrow> file_content \<times> int \<Rightarrow> (error + unit) \<times> store \<times> fs" where
  "saveData_finish st fs io p =
     (case p of (content, totalSize) \<Rightarrow>
      let tempPath = filePath st @ ''.tmp'' in
      (case write_result io of
         WriteFailed c residue \<Rightarrow> (Inl (fs_error st c), st, fs_put fs tempPath residue)
       | Written \<Rightarrow>
           (let fs1 = fs_put fs tempPath (Some content) in
            (case rename_error io of
               Some c \<Rightarrow>
                 (Inl (fs_error st c), st,
                  (case unlink_error io of None \<Rightarrow> fs_put fs1 tempPath None | Some u \<Rightarrow> fs1))
             | None \<Rightarrow>
                 (Inr (), st\<lparr>currentSize := totalSize, isDirty := False\<rparr>,
                  fs_rename fs1 tempPath (filePath st))))))"

definition saveData :: "store \<Rightarrow> fs \<Rightarrow> io \<Rightarrow> (error + unit) \<times> store \<times> fs" where
  "saveData st fs io =
     (case saveData_begin st of
        Inl e \<Rightarrow> (Inl e, st, fs)
      | Inr p \<Rightarrow> saveData_finish st fs io p)"

text \<open>
  \<open>queueSave\<close> up to its \<open>await\<close>: when no save is in flight, \<open>executeSave\<close> is started and
  runs \<open>saveData\<close> up to its first \<open>await\<close>; when one is in flight, nothing is started and
  the caller waits for that save.
\<close>

definition queueSave_begin :: "store \<Rightarrow> store" where
  "queueSave_begin st =
     (if savePromise st = None then st\<lparr>savePromise := Some (saveData_begin st)\<rparr> else st)"

text \<open>
  The save in flight comes to its end, on the store as it is by then: \<open>saveData\<close> goes on
  from \<open>writeFile\<close> (or has been rejected for the quota) and the \<open>finally\<close> block of
  \<open>executeSave\<close> resets \<open>savePromise\<close>. The result is what every caller waiting in
  \<open>queueSave\<close> is resumed with.
\<close>

definition executeSave_finish :: "store \<Rightarrow> fs \<Rightarrow> io \<Rightarrow> (error + unit) \<times> store \<times> fs" where
  "executeSave_finish st fs io =
     (case savePromise st of
        None \<Rightarrow> (Inr (), st, fs)
      | Some (Inl e) \<Rightarrow> (Inl e, st\<lparr>savePromise := None\<rparr>, fs)
      | Some (Inr p) \<Rightarrow>
          (case saveData_finish st fs io p of
             (r, st', fs') \<Rightarrow> (r, st'\<lparr>savePromise := None\<rparr>, fs')))"

text \<open>The \<open>forEach\<close> of \<open>loadData\<close> over \<open>Object.entries(data)\<close>.\<close>

fun loadLoop :: "int \<Rightarrow> index \<Rightarrow> store \<Rightarrow> store" where
  "loadLoop now [] st = st"
| "loadLoop now ((key, item) # rest) st =
     loadLoop now rest
       (if unexpired now item
        then st\<lparr>data := Map_set key item (data st),
                currentSize := currentSize st + estimateEntrySize key (val item)\<rparr>
        else st)"

definition loadData :: "store \<Rightarrow> fs \<Rightarrow> io \<Rightarrow> int \<Rightarrow> (error + unit) \<times> store" where
  "loadData st fs io now =
     (case read_error io of
        Some c \<Rightarrow> (if c = ENOENT then (Inr (), st\<lparr>currentSize := 0\<rparr>) else (Inl (IOFailure c), st))
      | None \<Rightarrow>
         (case fs (filePath st) of
            None \<Rightarrow> (Inr (), st\<lparr>currentSize := 0\<rparr>)
          | Some c \<Rightarrow>
              if file_size c > maxFileSize st then (Inl QuotaExceeded, st)
              else (case c of
                      Whitespace n \<Rightarrow> (Inr (), st\<lparr>data := [], currentSize := 0\<rparr>)
                    | Malformed n \<Rightarrow> (Inl ParseError, st)
                    | Document es \<Rightarrow> (Inr (), loadLoop now es (st\<lparr>data := [], currentSize := 0\<rparr>)))))"

text \<open>
  The constructor, for a given file path (the default path in the home directory is
  resolved by the caller), and \<open>initialize\<close>, where the directory of the file is taken to
  exist. \<open>options.maxBatchSize || 1000\<close> takes the default for an absent or zero option.
\<close>

record options =
  opt_maxBatchSize :: "int option"
  opt_maxFileSize :: "int option"

definition KVStore :: "string \<Rightarrow> options \<Rightarrow> store" where
  "KVStore path opts =
     \<lparr>filePath = path, data = [], lock = [], currentSize = 0, isDirty = False,
      saveTimeout = False,
      maxBatchSize = (if truthy (opt_maxBatchSize opts) then the (opt_maxBatchSize opts) else 1000),
      maxFileSize = (if truthy (opt_maxFileSize opts) then the (opt_maxFileSize opts)
                     else 1024 * 1024 * 1024),
      maxValueSize = 16 * 1024, maxKeyLength = 32, lockInstance = False,
      savePromise = None\<rparr>"

definition initialize :: "store \<Rightarrow> fs \<Rightarrow> io \<Rightarrow> int \<Rightarrow> (error + unit) \<times> store \<times> fs" where
  "initialize st fs io now =
     (case (if fs (filePath st) = None
            then (case init_write_error io of
                    Some c \<Rightarrow> Inl (IOFailure c)
                  | None \<Rightarrow> Inr (fs_put fs (filePath st) (Some (Document []))))
            else Inr fs) of
        Inl e \<Rightarrow> (Inl e, st, fs)
      | Inr fs1 \<Rightarrow>
          (case flock_error io of
             Some c \<Rightarrow> ((if c = ELOCKED then Inl StoreBusy else Inl (IOFailure c)), st, fs1)
           | None \<Rightarrow>
               (case loadData (st\<lparr>lockInstance := True\<rparr>) fs1 io now of
                  (r, st') \<Rightarrow> (r, st', fs1))))"

section \<open>The operations\<close>

text \<open>
  Every operation takes the time \<open>now\<close> that \<open>Date.now()\<close> answers while it runs and
  returns its result (\<open>Inl\<close> the error it throws) with the store, and the file system
  where it writes. The code between two \<open>await\<close>s runs without interruption; at an
  \<open>await\<close> other operations of the process can run. An operation is therefore given in
  parts:
  \<^item> the wait for the lock of its key, with the store as it is at each look
    (\<open>create_polled\<close>, \<open>read_polled\<close>, \<open>delete_polled\<close>, \<open>compact_polled\<close>);
  \<^item> the part that runs with the lock held (\<open>create_locked\<close>, \<open>read_locked\<close>,
    \<open>delete_locked\<close>, \<open>compact_locked\<close>), which for \<open>read\<close> and \<open>delete\<close> is one
    uninterrupted piece of code and follows the successful look at once;
  \<^item> for \<open>create\<close> and \<open>compact\<close>, which wait for a save, the part before the wait
    (\<open>create_locked_begin\<close>, \<open>compact_locked_begin\<close>) and the part after it
    (\<open>create_resume\<close>, \<open>compact_resume\<close>).
  \<open>create\<close>, \<open>read\<close>, \<open>delete\<close>, \<open>batchCreate\<close> and \<open>compact\<close> are the operations run
  alone: the store does not change while they wait, and the only thing that happens
  while \<open>create\<close> or \<open>compact\<close> waits for a save is the end of that save.
\<close>

text \<open>\<open>this.data.has(key)\<close> with an entry that has not expired.\<close>

definition has_unexpired :: "store \<Rightarrow> int \<Rightarrow> string \<Rightarrow> bool" where
  "has_unexpired st now key =
     (case Map_get (data st) key of None \<Rightarrow> False | Some existing \<Rightarrow> unexpired now existing)"

subsection \<open>Create\<close>

text \<open>The \<open>catch\<close> block of \<open>create\<close>.\<close>

definition create_catch :: "store \<Rightarrow> string \<Rightarrow> int \<Rightarrow> store" where
  "create_catch st key entrySize =
     st\<lparr>data := Map_delete key (data st), currentSize := currentSize st - entrySize\<rparr>"

text \<open>
  The \<open>try\<close> block of \<open>create\<close> with the lock held, up to \<open>await this.queueSave()\<close>. An
  error thrown on the way is followed by the \<open>catch\<close> and the \<open>finally\<close> block and ends
  the operation (\<open>Inl\<close>); otherwise the entry is inserted, the running total raised, and
  the operation waits for the save (\<open>Inr\<close>).
\<close>

definition create_locked_begin ::
  "store \<Rightarrow> int \<Rightarrow> string \<Rightarrow> json \<Rightarrow> int option \<Rightarrow> ((error + unit) \<times> store) + store" where
  "create_locked_begin st now key v ttl =
     (let entrySize = estimateEntrySize key v;
          potentialSize = currentSize st + entrySize in
      if potentialSize > maxFileSize st
      then Inl (Inl QuotaExceeded, releaseLock (create_catch st key entrySize) key)
      else if has_unexpired st now key
      then Inl (Inl KeyExists, releaseLock (create_catch st key entrySize) key)
      else Inr (queueSave_begin
                  (st\<lparr>data := Map_set key \<lparr>val = v, expiry = compute_expiry now ttl\<rparr> (data st),
                      currentSize := currentSize st + entrySize\<rparr>)))"

text \<open>
  \<open>create\<close> after the save it waited for has ended with the result \<open>r\<close>, on the store as
  it is then: \<open>queueSave\<close> wraps an error, which the \<open>catch\<close> block of \<open>create\<close> answers
  with the rollback; the \<open>finally\<close> block releases the lock.
\<close>

definition create_resume :: "store \<Rightarrow> error + unit \<Rightarrow> string \<Rightarrow> json \<Rightarrow> (error + unit) \<times> store" where
  "create_resume st r key v =
     (case r of
        Inl e \<Rightarrow>
          (Inl (PersistenceFailed e),
           releaseLock (create_catch st key (estimateEntrySize key v)) key)
      | Inr u \<Rightarrow> (Inr u, releaseLock st key))"

text \<open>With the lock held and nothing else running: the insertion, the end of the save, the rest.\<close>

definition create_locked ::
  "store \<Rightarrow> fs \<Rightarrow> io \<Rightarrow> int \<Rightarrow> string \<Rightarrow> json \<Rightarrow> int option \<Rightarrow> (error + unit) \<times> store \<times> fs" where
  "create_locked st fs io now key v ttl =
     (case create_locked_begin st now key v ttl of
        Inl (r, st') \<Rightarrow> (r, st', fs)
      | Inr st2 \<Rightarrow>
          (case executeSave_finish st2 fs io of
             (r, st3, fs3) \<Rightarrow>
               (case create_resume st3 r key v of (r', st4) \<Rightarrow> (r', st4, fs3))))"

definition create_polled ::
  "(nat \<Rightarrow> store) \<Rightarrow> fs \<Rightarrow> io \<Rightarrow> int \<Rightarrow> string \<Rightarrow> json \<Rightarrow> int option \<Rightarrow> (error + unit) \<times> store \<times> fs" where
  "create_polled seen fs io now key v ttl =
     (case validateKey (seen 0) key of
        Inl e \<Rightarrow> (Inl e, seen 0, fs)
      | Inr _ \<Rightarrow>
     (case validateValue (seen 0) v of
        Inl e \<Rightarrow> (Inl e, seen 0, fs)
      | Inr _ \<Rightarrow>
     (case acquireLoop seen key 0 of
        Inl e \<Rightarrow> (Inl e, seen 100, fs)
      | Inr st1 \<Rightarrow> create_locked st1 fs io now key v ttl)))"

definition create ::
  "store \<Rightarrow> fs \<Rightarrow> io \<Rightarrow> int \<Rightarrow> string \<Rightarrow> json \<Rightarrow> int option \<Rightarrow> (error + unit) \<times> store \<times> fs" where
  "create st fs io now key v ttl = create_polled (\<lambda>n. st) fs io now key v ttl"

text \<open>\<open>create\<close> from its call to its wait for the save, on a store that does not change
  while it waits for the lock.\<close>

definition create_begin ::
  "store \<Rightarrow> int \<Rightarrow> string \<Rightarrow> json \<Rightarrow> int option \<Rightarrow> ((error + unit) \<times> store) + store" where
  "create_begin st now key v ttl =
     (case validateKey st key of
        Inl e \<Rightarrow> Inl (Inl e, st)
      | Inr _ \<Rightarrow>
     (case validateValue st v of
        Inl e \<Rightarrow> Inl (Inl e, st)
      | Inr _ \<Rightarrow>
     (case acquireLock st key of
        Inl e \<Rightarrow> Inl (Inl e, st)
      | Inr st1 \<Rightarrow> create_locked_begin st1 now key v ttl)))"

subsection \<open>Read and delete\<close>

text \<open>The \<open>try\<close> and \<open>finally\<close> blocks of \<open>read\<close> and of \<open>delete\<close>, with the lock held.\<close>

definition read_locked :: "store \<Rightarrow> int \<Rightarrow> string \<Rightarrow> (error + json) \<times> store" where
  "read_locked st now key =
     (case Map_get (data st) key of
        None \<Rightarrow> (Inl (KeyNotFound False), releaseLock st key)
      | Some item \<Rightarrow>
          if expired now item
          then (Inl (KeyNotFound True),
                releaseLock (scheduleSave (st\<lparr>data := Map_delete key (data st)\<rparr>)) key)
          else (Inr (val item), releaseLock st key))"

definition read_polled :: "(nat \<Rightarrow> store) \<Rightarrow> int \<Rightarrow> string \<Rightarrow> (error + json) \<times> store" where
  "read_polled seen now key =
     (case validateKey (seen 0) key of
        Inl e \<Rightarrow> (Inl e, seen 0)
      | Inr _ \<Rightarrow>
     (case acquireLoop seen key 0 of
        Inl e \<Rightarrow> (Inl e, seen 100)
      | Inr st1 \<Rightarrow> read_locked st1 now key))"

definition read :: "store \<Rightarrow> int \<Rightarrow> string \<Rightarrow> (error + json) \<times> store" where
  "read st now key = read_polled (\<lambda>n. st) now key"

definition delete_locked :: "store \<Rightarrow> int \<Rightarrow> string \<Rightarrow> (error + unit) \<times> store" where
  "delete_locked st now key =
     (case Map_get (data st) key of
        None \<Rightarrow> (Inl (KeyNotFound False), releaseLock st key)
      | Some item \<Rightarrow>
          if expired now item
          then (Inl (KeyNotFound True),
                releaseLock (scheduleSave (st\<lparr>data := Map_delete key (data st)\<rparr>)) key)
          else (Inr (),
                releaseLock (scheduleSave (st\<lparr>data := Map_delete key (data st)\<rparr>)) key))"

definition delete_polled :: "(nat \<Rightarrow> store) \<Rightarrow> int \<Rightarrow> string \<Rightarrow> (error + unit) \<times> store" where
  "delete_polled seen now key =
     (case validateKey (seen 0) key of
        Inl e \<Rightarrow> (Inl e, seen 0)
      | Inr _ \<Rightarrow>
     (case acquireLoop seen key 0 of
        Inl e \<Rightarrow> (Inl e, seen 100)
      | Inr st1 \<Rightarrow> delete_locked st1 now key))"

definition delete :: "store \<Rightarrow> int \<Rightarrow> string \<Rightarrow> (error + unit) \<times> store" where
  "delete st now key = delete_polled (\<lambda>n. st) now key"

subsection \<open>Batch create\<close>

type_synonym item = "string \<times> json \<times> int option"

text \<open>The validation loop, on \<open>(failedKeys, validItems, totalNewSize)\<close>.\<close>

fun validateLoop ::
  "store \<Rightarrow> int \<Rightarrow> item list \<Rightarrow> string list \<times> item list \<times> int \<Rightarrow> string list \<times> item list \<times> int" where
  "validateLoop st now [] acc = acc"
| "validateLoop st now ((key, v, ttl) # items) (failedKeys, validItems, totalNewSize) =
     (case validateKey st key of
        Inl e \<Rightarrow> validateLoop st now items (failedKeys @ [key], validItems, totalNewSize)
      | Inr _ \<Rightarrow>
     (case validateValue st v of
        Inl e \<Rightarrow> validateLoop st now items (failedKeys @ [key], validItems, totalNewSize)
      | Inr _ \<Rightarrow>
     (let entrySize = estimateEntrySize key v in
      if has_unexpired st now key
      then validateLoop st now items (failedKeys @ [key], validItems, totalNewSize + entrySize)
      else validateLoop st now items
             (failedKeys, validItems @ [(key, v, ttl)], totalNewSize + entrySize))))"

text \<open>The loop acquiring a lock for each valid item, for a batch that runs alone; \<open>locks\<close>
  is a Set.\<close>

fun acquireAll :: "store \<Rightarrow> item list \<Rightarrow> string list \<Rightarrow> (error + unit) \<times> store \<times> string list" where
  "acquireAll st [] locks = (Inr (), st, locks)"
| "acquireAll st ((key, v, ttl) # items) locks =
     (case acquireLock st key of
        Inl e \<Rightarrow> (Inl e, st, locks)
      | Inr st1 \<Rightarrow> acquireAll st1 items (if key \<in> set locks then locks else locks @ [key]))"

fun insertAll :: "int \<Rightarrow> item list \<Rightarrow> store \<Rightarrow> store" where
  "insertAll now [] st = st"
| "insertAll now ((key, v, ttl) # items) st =
     insertAll now items
       (st\<lparr>data := Map_set key \<lparr>val = v, expiry = compute_expiry now ttl\<rparr> (data st)\<rparr>)"

fun releaseAll :: "store \<Rightarrow> string list \<Rightarrow> store" where
  "releaseAll st [] = st"
| "releaseAll st (key # locks) = releaseAll (releaseLock st key) locks"

definition batchCreate :: "store \<Rightarrow> int \<Rightarrow> item list \<Rightarrow> (error + string list) \<times> store" where
  "batchCreate st now items =
     (if int (length items) > maxBatchSize st then (Inl BatchTooLarge, st)
      else
       (case validateLoop st now items ([], [], 0) of (failedKeys, validItems, totalNewSize) \<Rightarrow>
          if currentSize st + totalNewSize > maxFileSize st then (Inl QuotaExceeded, st)
          else
           (case acquireAll st validItems [] of
              (Inl e, st1, locks) \<Rightarrow> (Inl e, releaseAll st1 locks)
            | (Inr u, st1, locks) \<Rightarrow>
                (Inr failedKeys, releaseAll (scheduleSave (insertAll now validItems st1)) locks))))"

subsection \<open>Compaction\<close>

text \<open>
  With the lock \<open>compact\<close> held, \<open>compact\<close> runs without a pause through the sweep to the
  serialisation in \<open>saveData\<close>; it then waits for the file system (the first \<open>await\<close>
  inside \<open>saveData\<close>), where other operations of the process can run, and resumes with
  the write, the rename and the release of the lock.
\<close>

definition sweep :: "int \<Rightarrow> store \<Rightarrow> store" where
  "sweep now st = st\<lparr>data := filter (\<lambda>(key, item). \<not> expired now item) (data st)\<rparr>"

definition compact_locked_begin :: "store \<Rightarrow> int \<Rightarrow> store \<times> (error + (file_content \<times> int))" where
  "compact_locked_begin st now = (let st2 = sweep now st in (st2, saveData_begin st2))"

definition compact_resume ::
  "store \<Rightarrow> error + (file_content \<times> int) \<Rightarrow> fs \<Rightarrow> io \<Rightarrow> (error + unit) \<times> store \<times> fs" where
  "compact_resume st pending fs io =
     (case pending of
        Inl e \<Rightarrow> (Inl e, releaseLock st ''compact'', fs)
      | Inr p \<Rightarrow>
          (case saveData_finish st fs io p of
             (r, st3, fs3) \<Rightarrow> (r, releaseLock st3 ''compact'', fs3)))"

definition compact_locked :: "store \<Rightarrow> fs \<Rightarrow> io \<Rightarrow> int \<Rightarrow> (error + unit) \<times> store \<times> fs" where
  "compact_locked st fs io now =
     (case compact_locked_begin st now of (st2, pending) \<Rightarrow> compact_resume st2 pending fs io)"

definition compact_polled :: "(nat \<Rightarrow> store) \<Rightarrow> fs \<Rightarrow> io \<Rightarrow> int \<Rightarrow> (error + unit) \<times> store \<times> fs" where
  "compact_polled seen fs io now =
     (case acquireLoop seen ''compact'' 0 of
        Inl e \<Rightarrow> (Inl e, seen 100, fs)
      | Inr st1 \<Rightarrow> compact_locked st1 fs io now)"

definition compact :: "store \<Rightarrow> fs \<Rightarrow> io \<Rightarrow> int \<Rightarrow> (error + unit) \<times> store \<times> fs" where
  "compact st fs io now = compact_polled (\<lambda>n. st) fs io now"

text \<open>\<open>compact\<close> from its call to its wait for the file system, on a store that does not
  change while it waits for the lock.\<close>

definition compact_begin :: "store \<Rightarrow> int \<Rightarrow> error + (store \<times> (error + (file_content \<times> int)))" where
  "compact_begin st now =
     (case acquireLock st ''compact'' of
        Inl e \<Rightarrow> Inl e
      | Inr st1 \<Rightarrow> Inr (compact_locked_begin st1 now))"

subsection \<open>Notions used in the statements\<close>

text \<open>A key is held when the lock table maps it to \<open>true\<close>.\<close>

definition held :: "store \<Rightarrow> string \<Rightarrow> bool" where
  "held st key = (Map_get (lock st) key = Some True)"

text \<open>The sum of the estimated sizes of the entries of an index.\<close>

definition total_size :: "index \<Rightarrow> int" where
  "total_size m = sum_list (map (\<lambda>(key, item). estimateEntrySize key (val item)) m)"

subsection \<open>Concrete stores\<close>

text \<open>A store with the default limits, one limited to 40 bytes, and a file system without files.\<close>

definition default_store :: store where
  "default_store = KVStore ''kv.json'' \<lparr>opt_maxBatchSize = None, opt_maxFileSize = None\<rparr>"

definition small_store :: store where
  "small_store = KVStore ''kv.json'' \<lparr>opt_maxBatchSize = None, opt_maxFileSize = Some 40\<rparr>"

definition no_files :: fs where
  "no_files = (\<lambda>p. None)"

text \<open>The default store after \<open>create("test", 1)\<close>, and the small store after \<open>create("k", 1)\<close>.\<close>

definition store_with_test :: store where
  "store_with_test =
     fst (snd (create default_store no_files io_ok 1000 ''test'' (JNum 1) None))"

definition small_store_with_k :: store where
  "small_store_with_k =
     fst (snd (create small_store no_files io_ok 1000 ''k'' (JNum 1) None))"

text \<open>A key of 33 characters, and the default store after \<open>create("k", 1, -5)\<close> at time 5000.\<close>

definition long_key :: string where
  "long_key = replicate 33 (CHR ''a'')"

definition store_zero_expiry :: store where
  "store_zero_expiry =
     fst (snd (create default_store no_files io_ok 5000 ''k'' (JNum 1) (Some (- 5))))"

text \<open>The store and the pending save when a compaction started at time 2000 waits for the
  file system.\<close>

definition compacting :: store where
  "compacting = fst (projr (compact_begin store_with_test 2000))"

definition pending_save :: "error + (file_content \<times> int)" where
  "pending_save = snd (projr (compact_begin store_with_test 2000))"

text \<open>The small store after \<open>create("kk", 1, 1)\<close> at time 1730527199000, and the default store
  after \<open>create("__proto__", 1)\<close>.\<close>

definition store_kk :: store where
  "store_kk =
     fst (snd (create small_store no_files io_ok 1730527199000 ''kk'' (JNum 1) (Some 1)))"

definition store_proto :: store where
  "store_proto =
     fst (snd (create default_store no_files io_ok 1000 ''__proto__'' (JNum 1) None))"

text \<open>
  Two overlapping creates on the default store: \<open>create("a", 1)\<close> up to its wait for the
  save, then \<open>create("b", 1)\<close> up to its wait, then the end of the save in flight.
\<close>

definition overlap_a :: store where
  "overlap_a = projr (create_begin default_store 1000 ''a'' (JNum 1) None)"



text \<open>The store with the key \<open>test\<close> after \<open>create("b", "x", 60)\<close> at time 1500.\<close>

definition store_two :: store where
  "store_two =
     fst (snd (create store_with_test no_files io_ok 1500 ''b'' (JStr ''x'') (Some 60)))"

text \<open>
  What a second \<open>compact\<close> polling for the lock \<open>compact\<close> sees when the first compaction
  ends its save during the third sleep: the store of the waiting compaction at the first
  three looks, and the store that compaction leaves from then on.
\<close>

definition released_at_3 :: "nat \<Rightarrow> store" where
  "released_at_3 n =
     (if n < 3 then compacting
      else fst (snd (compact_resume compacting pending_save no_files io_ok)))"

text \<open>
  The store with the key \<open>test\<close> as a caller polling for the lock \<open>test\<close> sees it when
  that lock is held during the first three looks and free from then on.
\<close>

definition test_released_at_3 :: "nat \<Rightarrow> store" where
  "test_released_at_3 n =
     (if n < 3 then store_with_test\<lparr>lock := [(''test'', True)]\<rparr> else store_with_test)"

section \<open>Basic facts\<close>

subsection \<open>Locks and Maps\<close>

text \<open>The loop gives up when the key is held at every look, and takes the lock at the
  first look that finds it free.\<close>

lemma acquireLoop_timeout:
  "a \<le> 100 \<Longrightarrow> (\<forall>n. a \<le> n \<and> n \<le> 100 \<longrightarrow> held (seen n) key) \<Longrightarrow>
   acquireLoop seen key a = Inl (LockTimeout key)"
proof (induction seen key a rule: acquireLoop.induct)
  case (1 seen key attempts)
  show ?case
  proof (cases "attempts \<ge> 100")
    case True
    with "1.prems" show ?thesis
      by (subst acquireLoop.simps) (simp add: held_def)
  next
    case False
    with "1.prems" have h: "held (seen attempts) key" by simp
    from False "1.prems" have "acquireLoop seen key (Suc attempts) = Inl (LockTimeout key)"
      using h by (intro "1.IH") (auto simp: held_def)
    with h False show ?thesis
      by (subst acquireLoop.simps) (simp add: held_def)
  qed
qed

lemma acquireLoop_proceeds:
  "a \<le> n \<Longrightarrow> n \<le> 100 \<Longrightarrow> (\<forall>m. a \<le> m \<and> m < n \<longrightarrow> held (seen m) key) \<Longrightarrow>
   \<not> held (seen n) key \<Longrightarrow>
   acquireLoop seen key a = Inr ((seen n)\<lparr>lock := Map_set key True (lock (seen n))\<rparr>)"
proof (induction seen key a rule: acquireLoop.induct)
  case (1 seen key attempts)
  show ?case
  proof (cases "attempts = n")
    case True
    with "1.prems" show ?thesis
      by (subst acquireLoop.simps) (simp add: held_def)
  next
    case False
    with "1.prems" have lt: "attempts < n" and h: "held (seen attempts) key" by auto
    from lt "1.prems" have "\<not> attempts \<ge> 100" by simp
    moreover from this lt "1.prems" h have
      "acquireLoop seen key (Suc attempts) = Inr ((seen n)\<lparr>lock := Map_set key True (lock (seen n))\<rparr>)"
      by (intro "1.IH") (auto simp: held_def)
    ultimately show ?thesis using h
      by (subst acquireLoop.simps) (simp add: held_def)
  qed
qed

lemma acquireLoop_alone:
  "acquireLoop (\<lambda>n. st) key 0 =
     (if held st key then Inl (LockTimeout key)
      else Inr (st\<lparr>lock := Map_set key True (lock st)\<rparr>))"
  using acquireLoop_timeout [of 0 "\<lambda>n. st" key] acquireLoop_proceeds [of 0 0 "\<lambda>n. st" key]
  by simp

lemma acquireLock_eq:
  "acquireLock st key =
     (if held st key then Inl (LockTimeout key)
      else Inr (st\<lparr>lock := Map_set key True (lock st)\<rparr>))"
  by (simp add: acquireLock_def acquireLoop_alone)

lemma map_of_Map_set: "map_of (Map_set k v m) = (map_of m)(k \<mapsto> v)"
  by (induction m) (auto simp: fun_eq_iff)

lemma map_of_Map_delete: "map_of (Map_delete k m) = (map_of m)(k := None)"
  by (induction m) (auto simp: fun_eq_iff)

lemma Map_set_absent: "map_of m k = None \<Longrightarrow> Map_set k v m = m @ [(k, v)]"
  by (induction m) (auto split: if_splits)


lemma saveLoop_fileData:
  "distinct (map fst m) \<Longrightarrow> ''__proto__'' \<notin> fst ` set m \<Longrightarrow> fst ` set m \<inter> fst ` set fd = {} \<Longrightarrow>
   fst (saveLoop m (fd, t)) = fd @ m"
proof (induction m arbitrary: fd t)
  case Nil
  then show ?case by simp
next
  case (Cons p m)
  obtain k e where p: "p = (k, e)" by (cases p)
  from Cons.prems p have absent: "map_of fd k = None"
    by (auto simp: map_of_eq_None_iff)
  have "fst (saveLoop m (fd @ [(k, e)], t + estimateEntrySize k (val e))) = (fd @ [(k, e)]) @ m"
    using Cons.prems p by (intro Cons.IH) auto
  moreover from Cons.prems p have "k \<noteq> ''__proto__''" by auto
  ultimately show ?case
    using p absent by (simp add: obj_assign_def Map_set_absent)
qed

lemma loadLoop_eq:
  "distinct (map fst es) \<Longrightarrow> fst ` set es \<inter> fst ` set (data st) = {} \<Longrightarrow>
   loadLoop now es st =
     st\<lparr>data := data st @ filter (\<lambda>(k, e). unexpired now e) es,
        currentSize := currentSize st + total_size (filter (\<lambda>(k, e). unexpired now e) es)\<rparr>"
proof (induction es arbitrary: st)
  case Nil
  then show ?case by (simp add: total_size_def)
next
  case (Cons p es)
  obtain k e where p: "p = (k, e)" by (cases p)
  from Cons.prems p have absent: "map_of (data st) k = None"
    by (auto simp: map_of_eq_None_iff)
  show ?case
  proof (cases "unexpired now e")
    case True
    let ?st1 = "st\<lparr>data := Map_set k e (data st), currentSize := currentSize st + estimateEntrySize k (val e)\<rparr>"
    have "loadLoop now es ?st1 =
        ?st1\<lparr>data := data ?st1 @ filter (\<lambda>(k, e). unexpired now e) es,
        currentSize := currentSize ?st1 + total_size (filter (\<lambda>(k, e). unexpired now e) es)\<rparr>"
      using Cons.prems p absent by (intro Cons.IH) (auto simp: Map_set_absent)
    with True p absent show ?thesis
      by (simp add: Map_set_absent total_size_def)
  next
    case False
    have "loadLoop now es st =
        st\<lparr>data := data st @ filter (\<lambda>(k, e). unexpired now e) es,
        currentSize := currentSize st + total_size (filter (\<lambda>(k, e). unexpired now e) es)\<rparr>"
      using Cons.prems p by (intro Cons.IH) auto
    with False p show ?thesis by simp
  qed
qed

subsection \<open>Saving\<close>



lemma saveData_state_failed:
  "fst (saveData st fs io) = Inl e \<Longrightarrow> fst (snd (saveData st fs io)) = st"
proof -
  obtain fd t where sl: "saveLoop (data st) ([], 0) = (fd, t)" by (cases "saveLoop (data st) ([], 0)")
  show "fst (saveData st fs io) = Inl e \<Longrightarrow> ?thesis"
    by (auto simp: saveData_def saveData_begin_def saveData_finish_def sl Let_def
        split: write_outcome.splits option.splits if_splits)
qed


subsection \<open>The operations run alone\<close>

lemma create_alone:
  "create st fs io now key v ttl =
     (case validateKey st key of
        Inl e \<Rightarrow> (Inl e, st, fs)
      | Inr _ \<Rightarrow>
     (case validateValue st v of
        Inl e \<Rightarrow> (Inl e, st, fs)
      | Inr _ \<Rightarrow>
     (if held st key then (Inl (LockTimeout key), st, fs)
      else create_locked (st\<lparr>lock := Map_set key True (lock st)\<rparr>) fs io now key v ttl)))"
  by (simp add: create_def create_polled_def acquireLoop_alone split: sum.splits)

lemma read_alone:
  "read st now key =
     (case validateKey st key of
        Inl e \<Rightarrow> (Inl e, st)
      | Inr _ \<Rightarrow>
     (if held st key then (Inl (LockTimeout key), st)
      else read_locked (st\<lparr>lock := Map_set key True (lock st)\<rparr>) now key))"
  by (simp add: read_def read_polled_def acquireLoop_alone split: sum.splits)

lemma delete_alone:
  "delete st now key =
     (case validateKey st key of
        Inl e \<Rightarrow> (Inl e, st)
      | Inr _ \<Rightarrow>
     (if held st key then (Inl (LockTimeout key), st)
      else delete_locked (st\<lparr>lock := Map_set key True (lock st)\<rparr>) now key))"
  by (simp add: delete_def delete_polled_def acquireLoop_alone split: sum.splits)

lemma compact_alone:
  "compact st fs io now =
     (if held st ''compact'' then (Inl (LockTimeout ''compact''), st, fs)
      else compact_locked (st\<lparr>lock := Map_set ''compact'' True (lock st)\<rparr>) fs io now)"
  by (simp add: compact_def compact_polled_def acquireLoop_alone)

lemma compact_begin_resume:
  "compact st fs io now =
     (case compact_begin st now of
        Inl e \<Rightarrow> (Inl e, st, fs)
      | Inr (st2, pending) \<Rightarrow> compact_resume st2 pending fs io)"
  by (simp add: compact_alone compact_begin_def acquireLock_eq compact_locked_def split: prod.splits)

lemma create_begin_resume:
  "create st fs io now key v ttl =
     (case create_begin st now key v ttl of
        Inl (r, st') \<Rightarrow> (r, st', fs)
      | Inr st2 \<Rightarrow>
          (case executeSave_finish st2 fs io of
             (r, st3, fs3) \<Rightarrow>
               (case create_resume st3 r key v of (r', st4) \<Rightarrow> (r', st4, fs3))))"
  by (simp add: create_alone create_begin_def acquireLock_eq create_locked_def split: sum.splits)



lemma executeSave_finish_lock: "lock (fst (snd (executeSave_finish st fs io))) = lock st"
  by (auto simp: executeSave_finish_def saveData_finish_def Let_def
      split: write_outcome.splits option.splits sum.splits prod.splits)

lemma executeSave_finish_data: "data (fst (snd (executeSave_finish st fs io))) = data st"
  by (auto simp: executeSave_finish_def saveData_finish_def Let_def
      split: write_outcome.splits option.splits sum.splits prod.splits)


lemma queueSave_begin_fields:
  "data (queueSave_begin st) = data st" "lock (queueSave_begin st) = lock st"
  "currentSize (queueSave_begin st) = currentSize st" "isDirty (queueSave_begin st) = isDirty st"
  "maxFileSize (queueSave_begin st) = maxFileSize st"
  by (simp_all add: queueSave_begin_def)

text \<open>What a create that reaches its save has done by then, and what a successful create leaves.\<close>

lemma create_begin_waiting:
  assumes "create_begin st now key v ttl = Inr st2"
  shows "st2 = queueSave_begin
                 (st\<lparr>lock := Map_set key True (lock st),
                     data := Map_set key \<lparr>val = v, expiry = compute_expiry now ttl\<rparr> (data st),
                     currentSize := currentSize st + estimateEntrySize key v\<rparr>)"
    and "validateKey st key = Inr ()" and "validateValue st v = Inr ()" and "\<not> held st key"
    and "currentSize st + estimateEntrySize key v \<le> maxFileSize st"
    and "\<not> has_unexpired st now key"
  using assms
  by (auto simp: create_begin_def acquireLock_eq create_locked_begin_def Let_def has_unexpired_def
      split: sum.splits if_splits)

lemma create_ok_begin:
  assumes "fst (create st fs io now key v ttl) = Inr ()"
  shows "\<exists>st2. create_begin st now key v ttl = Inr st2 \<and>
           fst (executeSave_finish st2 fs io) = Inr () \<and>
           fst (snd (create st fs io now key v ttl)) =
             releaseLock (fst (snd (executeSave_finish st2 fs io))) key"
proof (cases "create_begin st now key v ttl")
  case (Inl a)
  with assms show ?thesis
    by (cases a)
       (auto simp: create_begin_resume create_begin_def acquireLock_eq create_locked_begin_def Let_def
        split: sum.splits if_splits)
next
  case (Inr st2)
  obtain r st3 fs3 where ex: "executeSave_finish st2 fs io = (r, st3, fs3)"
    by (cases "executeSave_finish st2 fs io" rule: prod_cases3)
  with assms Inr show ?thesis
    by (cases r) (auto simp: create_begin_resume create_resume_def)
qed

lemma create_ok_state:
  assumes "fst (create st fs io now key v ttl) = Inr ()"
  shows "data (fst (snd (create st fs io now key v ttl))) =
           Map_set key \<lparr>val = v, expiry = compute_expiry now ttl\<rparr> (data st)"
    and "lock (fst (snd (create st fs io now key v ttl))) =
           Map_delete key (Map_set key True (lock st))"
proof -
  from create_ok_begin [OF assms] obtain st2 where
    b: "create_begin st now key v ttl = Inr st2"
    and s: "fst (snd (create st fs io now key v ttl)) =
             releaseLock (fst (snd (executeSave_finish st2 fs io))) key"
    by blast
  note w = create_begin_waiting(1) [OF b]
  show "data (fst (snd (create st fs io now key v ttl))) =
           Map_set key \<lparr>val = v, expiry = compute_expiry now ttl\<rparr> (data st)"
    by (simp add: s releaseLock_def executeSave_finish_data w queueSave_begin_fields)
  show "lock (fst (snd (create st fs io now key v ttl))) =
           Map_delete key (Map_set key True (lock st))"
    by (simp add: s releaseLock_def executeSave_finish_lock w queueSave_begin_fields)
qed

subsection \<open>Waiting for a lock\<close>

text \<open>An operation that waits for a lock gives up when the lock is held at all looks, and
  goes on in the store of the first look that finds the lock free.\<close>

lemma read_polled_proceeds:
  assumes "validateKey (seen 0) key = Inr ()" and "n \<le> 100"
    and "\<forall>m < n. held (seen m) key" and "\<not> held (seen n) key"
  shows "read_polled seen now key =
           read_locked ((seen n)\<lparr>lock := Map_set key True (lock (seen n))\<rparr>) now key"
  using assms acquireLoop_proceeds [of 0 n seen key]
  by (simp add: read_polled_def)

lemma read_polled_timeout:
  assumes "validateKey (seen 0) key = Inr ()" and "\<forall>n \<le> 100. held (seen n) key"
  shows "read_polled seen now key = (Inl (LockTimeout key), seen 100)"
  using assms acquireLoop_timeout [of 0 seen key]
  by (simp add: read_polled_def)

lemma polled_timeout:
  assumes "\<forall>n \<le> 100. held (seen n) key"
  shows "key = ''compact'' \<Longrightarrow>
           compact_polled seen fs io now = (Inl (LockTimeout ''compact''), seen 100, fs)"
    and "validateKey (seen 0) key = Inr () \<Longrightarrow> validateValue (seen 0) v = Inr () \<Longrightarrow>
           create_polled seen fs io now key v ttl = (Inl (LockTimeout key), seen 100, fs)"
    and "validateKey (seen 0) key = Inr () \<Longrightarrow>
           delete_polled seen now key = (Inl (LockTimeout key), seen 100)"
  using assms acquireLoop_timeout [of 0 seen key]
  by (simp_all add: compact_polled_def create_polled_def delete_polled_def)

lemma polled_proceeds:
  assumes "n \<le> 100" and "\<forall>m < n. held (seen m) key" and "\<not> held (seen n) key"
  shows "key = ''compact'' \<Longrightarrow>
           compact_polled seen fs io now =
             compact_locked ((seen n)\<lparr>lock := Map_set key True (lock (seen n))\<rparr>) fs io now"
    and "validateKey (seen 0) key = Inr () \<Longrightarrow> validateValue (seen 0) v = Inr () \<Longrightarrow>
           create_polled seen fs io now key v ttl =
             create_locked ((seen n)\<lparr>lock := Map_set key True (lock (seen n))\<rparr>) fs io now key v ttl"
    and "validateKey (seen 0) key = Inr () \<Longrightarrow>
           delete_polled seen now key =
             delete_locked ((seen n)\<lparr>lock := Map_set key True (lock (seen n))\<rparr>) now key"
  using assms acquireLoop_proceeds [of 0 n seen key]
  by (simp_all add: compact_polled_def create_polled_def delete_polled_def)

section \<open>Create and its time to live\<close>

lemma to_double_safe: "\<bar>x\<bar> \<le> 2 ^ 53 \<Longrightarrow> to_double x = x"
proof -
  assume a: "\<bar>x\<bar> \<le> 2 ^ 53"
  have s: "sgn x * \<bar>x\<bar> = x" by (simp add: mult_sgn_abs)
  show ?thesis
  proof (cases "\<bar>x\<bar> < 2 ^ 53")
    case True
    then have "ulp \<bar>x\<bar> = 1" by (subst ulp.simps) simp
    with s show ?thesis by (simp add: to_double_def Let_def)
  next
    case False
    with a have e: "\<bar>x\<bar> = 2 ^ 53" by simp
    have "ulp (2 ^ 53) = 2 * ulp (2 ^ 52)" by (subst ulp.simps) simp
    also have "ulp (2 ^ 52) = 1" by (subst ulp.simps) simp
    finally have u: "ulp \<bar>x\<bar> = 2" using e by simp
    from s e u show ?thesis by (simp add: to_double_def Let_def)
  qed
qed

lemma compute_expiry_cases:
  "(ttl = None \<or> ttl = Some 0 \<longrightarrow> compute_expiry now ttl = None) \<and>
   (\<forall>t. ttl = Some t \<and> t \<noteq> 0 \<and> \<bar>t * 1000\<bar> \<le> 2 ^ 53 \<and> \<bar>now + t * 1000\<bar> \<le> 2 ^ 53 \<longrightarrow>
      compute_expiry now ttl = Some (now + t * 1000))"
  by (auto simp: compute_expiry_def truthy_def js_add_def js_mul_def to_double_safe)

text \<open>
  C3, as the code has it, for a time to live that is a whole number of seconds: the entry
  that \<open>create(key, value, ttl)\<close> inserts, and that the index holds when a create run
  alone returns with success, has no expiry when \<open>ttl\<close> is absent or zero. For every
  other \<open>ttl\<close>, negative ones included, its expiry is exactly \<open>now + ttl * 1000\<close> as long
  as \<open>now\<close>, the product and the sum are safe integers (of magnitude at most \<open>2 ^ 53\<close>),
  where the doubles of the code compute exactly.
\<close>

theorem create_stores_expiry:
  "(\<forall>st2. create_begin st now key v ttl = Inr st2 \<longrightarrow>
      (ttl = None \<or> ttl = Some 0 \<longrightarrow>
         Map_get (data st2) key = Some \<lparr>val = v, expiry = None\<rparr>) \<and>
      (\<forall>t. ttl = Some t \<and> t \<noteq> 0 \<and> \<bar>now\<bar> \<le> 2 ^ 53 \<and> \<bar>t * 1000\<bar> \<le> 2 ^ 53 \<and>
           \<bar>now + t * 1000\<bar> \<le> 2 ^ 53 \<longrightarrow>
         Map_get (data st2) key = Some \<lparr>val = v, expiry = Some (now + t * 1000)\<rparr>)) \<and>
   (fst (create st fs io now key v ttl) = Inr () \<longrightarrow>
      (ttl = None \<or> ttl = Some 0 \<longrightarrow>
         Map_get (data (fst (snd (create st fs io now key v ttl)))) key =
           Some \<lparr>val = v, expiry = None\<rparr>) \<and>
      (\<forall>t. ttl = Some t \<and> t \<noteq> 0 \<and> \<bar>now\<bar> \<le> 2 ^ 53 \<and> \<bar>t * 1000\<bar> \<le> 2 ^ 53 \<and>
           \<bar>now + t * 1000\<bar> \<le> 2 ^ 53 \<longrightarrow>
         Map_get (data (fst (snd (create st fs io now key v ttl)))) key =
           Some \<lparr>val = v, expiry = Some (now + t * 1000)\<rparr>))"
proof -
  have inserted: "Map_get (data st2) key = Some \<lparr>val = v, expiry = compute_expiry now ttl\<rparr>"
    if "create_begin st now key v ttl = Inr st2" for st2
    using create_begin_waiting(1) [OF that]
    by (simp add: queueSave_begin_fields map_of_Map_set)
  have kept: "Map_get (data (fst (snd (create st fs io now key v ttl)))) key =
      Some \<lparr>val = v, expiry = compute_expiry now ttl\<rparr>"
    if "fst (create st fs io now key v ttl) = Inr ()"
    using create_ok_state(1) [OF that] by (simp add: map_of_Map_set)
  from inserted kept compute_expiry_cases [of ttl now] show ?thesis
    by (intro conjI allI impI) simp_all
qed

text \<open>A create with a time to live of 60 seconds at time 1000, up to its wait and as a
  whole, and a create without a time to live.\<close>

theorem create_stores_expiry_witness:
  "create_begin default_store 1000 ''a'' (JNum 1) None = Inr overlap_a \<and>
   Map_get (data overlap_a) ''a'' = Some \<lparr>val = JNum 1, expiry = None\<rparr> \<and>
   fst (create default_store no_files io_ok 1000 ''k'' (JNum 1) (Some 60)) = Inr () \<and>
   (60 :: int) \<noteq> 0 \<and> \<bar>1000 :: int\<bar> \<le> 2 ^ 53 \<and>
   \<bar>60 * 1000 :: int\<bar> \<le> 2 ^ 53 \<and> \<bar>1000 + 60 * 1000 :: int\<bar> \<le> 2 ^ 53 \<and>
   Map_get (data (fst (snd (create default_store no_files io_ok 1000 ''k'' (JNum 1) (Some 60))))) ''k'' =
     Some \<lparr>val = JNum 1, expiry = Some 61000\<rparr> \<and>
   fst (create default_store no_files io_ok 1000 ''test'' (JNum 1) None) = Inr () \<and>
   Map_get (data (fst (snd (create default_store no_files io_ok 1000 ''test'' (JNum 1) None)))) ''test'' =
     Some \<lparr>val = JNum 1, expiry = None\<rparr>"
proof -
  have b: "create_begin default_store 1000 ''a'' (JNum 1) None = Inr overlap_a"
    unfolding overlap_a_def by code_simp
  have ok: "fst (create default_store no_files io_ok 1000 ''k'' (JNum 1) (Some 60)) = Inr ()"
    and ok': "fst (create default_store no_files io_ok 1000 ''test'' (JNum 1) None) = Inr ()"
    by code_simp+
  have r: "(60 :: int) \<noteq> 0" "\<bar>1000 :: int\<bar> \<le> 2 ^ 53"
    "\<bar>60 * 1000 :: int\<bar> \<le> 2 ^ 53" "\<bar>1000 + 60 * 1000 :: int\<bar> \<le> 2 ^ 53"
    by simp_all
  from create_stores_expiry [of default_store 1000 "''a''" "JNum 1" None no_files io_ok] b
  have 1: "Map_get (data overlap_a) ''a'' = Some \<lparr>val = JNum 1, expiry = None\<rparr>"
    by simp
  from create_stores_expiry [of default_store 1000 "''k''" "JNum 1" "Some 60" no_files io_ok] ok r
  have 2: "Map_get (data (fst (snd (create default_store no_files io_ok 1000 ''k'' (JNum 1) (Some 60))))) ''k'' =
     Some \<lparr>val = JNum 1, expiry = Some 61000\<rparr>"
    by simp
  from create_stores_expiry [of default_store 1000 "''test''" "JNum 1" None no_files io_ok] ok'
  have 3: "Map_get (data (fst (snd (create default_store no_files io_ok 1000 ''test'' (JNum 1) None)))) ''test'' =
     Some \<lparr>val = JNum 1, expiry = None\<rparr>"
    by simp
  from b 1 ok r 2 ok' 3 show ?thesis by simp
qed

text \<open>
  A negative time to live is stored as an expiry in the past, not as "no expiry"; and
  with a time to live of \<open>2 ^ 53\<close> seconds at time 1000 the stored expiry is the double
  9007199254740993024, not 9007199254740993000.
\<close>

theorem create_negative_ttl_counterexample:
  "fst (create default_store no_files io_ok 5000 ''k'' (JNum 1) (Some (- 2))) = Inr () \<and>
   Map_get (data (fst (snd (create default_store no_files io_ok 5000 ''k'' (JNum 1) (Some (- 2)))))) ''k'' =
     Some \<lparr>val = JNum 1, expiry = Some 3000\<rparr> \<and>
   fst (create default_store no_files io_ok 1000 ''k'' (JNum 1) (Some 9007199254740992)) = Inr () \<and>
   Map_get (data (fst (snd (create default_store no_files io_ok 1000 ''k'' (JNum 1)
                              (Some 9007199254740992))))) ''k'' =
     Some \<lparr>val = JNum 1, expiry = Some 9007199254740993024\<rparr> \<and>
   (1000 + 9007199254740992 * 1000 :: int) = 9007199254740993000"
  by code_simp

section \<open>Failing creates\<close>

text \<open>
  C1, evaluated: the \<open>catch\<close> block of \<open>create\<close> also runs for the errors thrown before
  anything was inserted. A \<open>create\<close> on the key \<open>test\<close>, which holds an entry without
  expiry, fails with \<open>KeyExists\<close>, removes that entry from the index and takes the
  estimated size of the rejected entry off the running total; a \<open>create\<close> that fails with
  \<open>QuotaExceeded\<close> takes the estimated size off the running total as well.
\<close>

theorem create_failure_changes_state:
  "data store_with_test = [(''test'', \<lparr>val = JNum 1, expiry = None\<rparr>)] \<and>
   currentSize store_with_test = 34 \<and>
   fst (create store_with_test no_files io_ok 2000 ''test'' (JNum 2) None) = Inl KeyExists \<and>
   data (fst (snd (create store_with_test no_files io_ok 2000 ''test'' (JNum 2) None))) = [] \<and>
   currentSize (fst (snd (create store_with_test no_files io_ok 2000 ''test'' (JNum 2) None))) = 0 \<and>
   data small_store_with_k = [(''k'', \<lparr>val = JNum 1, expiry = None\<rparr>)] \<and>
   currentSize small_store_with_k = 31 \<and>
   fst (create small_store_with_k no_files io_ok 2000 ''b'' (JNum 2) None) = Inl QuotaExceeded \<and>
   currentSize (fst (snd (create small_store_with_k no_files io_ok 2000 ''b'' (JNum 2) None))) = 0"
  by code_simp

section \<open>Size accounting\<close>









section \<open>Read\<close>

text \<open>
  C7, as the code has it. \<open>read(key)\<close> first validates the key: a key longer than the
  maximum key length fails with \<open>InvalidKey\<close> and the index is not consulted. It then
  polls for the lock of the key and fails with \<open>LockTimeout\<close> when the lock is held at
  all 101 looks. Otherwise, in the store of the first look that finds the lock free: it
  fails with \<open>KeyNotFound\<close> when the key is absent from the index; when the key is
  present with an expiry that is not zero and at or before \<open>now\<close>, it removes the entry,
  schedules a debounced save and fails with \<open>KeyNotFound\<close> (the message says "expired");
  otherwise (no expiry, expiry zero, or expiry after \<open>now\<close>) it returns the stored value
  and leaves the index as it was.
\<close>

theorem read_cases:
  "(validateKey (seen 0) key \<noteq> Inr () \<longrightarrow> read_polled seen now key = (Inl InvalidKey, seen 0)) \<and>
   (validateKey (seen 0) key = Inr () \<and> (\<forall>n \<le> 100. held (seen n) key) \<longrightarrow>
      read_polled seen now key = (Inl (LockTimeout key), seen 100)) \<and>
   (validateKey (seen 0) key = Inr () \<and> n \<le> 100 \<and> (\<forall>m < n. held (seen m) key) \<and>
    \<not> held (seen n) key \<longrightarrow>
      (Map_get (data (seen n)) key = None \<longrightarrow>
         fst (read_polled seen now key) = Inl (KeyNotFound False) \<and>
         data (snd (read_polled seen now key)) = data (seen n)) \<and>
      (\<forall>item t. Map_get (data (seen n)) key = Some item \<and> expiry item = Some t \<and>
                t \<noteq> 0 \<and> t \<le> now \<longrightarrow>
         fst (read_polled seen now key) = Inl (KeyNotFound True) \<and>
         data (snd (read_polled seen now key)) = Map_delete key (data (seen n)) \<and>
         Map_get (data (snd (read_polled seen now key))) key = None \<and>
         isDirty (snd (read_polled seen now key)) \<and> saveTimeout (snd (read_polled seen now key))) \<and>
      (\<forall>item. Map_get (data (seen n)) key = Some item \<and>
              (expiry item = None \<or> expiry item = Some 0 \<or> (\<exists>t. expiry item = Some t \<and> now < t)) \<longrightarrow>
         fst (read_polled seen now key) = Inr (val item) \<and>
         data (snd (read_polled seen now key)) = data (seen n)))"
proof -
  have invalid: "validateKey (seen 0) key \<noteq> Inr () \<longrightarrow>
      read_polled seen now key = (Inl InvalidKey, seen 0)"
    by (simp add: read_polled_def validateKey_def split: if_splits)
  have timeout: "validateKey (seen 0) key = Inr () \<and> (\<forall>n \<le> 100. held (seen n) key) \<longrightarrow>
      read_polled seen now key = (Inl (LockTimeout key), seen 100)"
    using read_polled_timeout by blast
  have proceeds:
    "(Map_get (data (seen n)) key = None \<longrightarrow>
         fst (read_polled seen now key) = Inl (KeyNotFound False) \<and>
         data (snd (read_polled seen now key)) = data (seen n)) \<and>
      (\<forall>item t. Map_get (data (seen n)) key = Some item \<and> expiry item = Some t \<and>
                t \<noteq> 0 \<and> t \<le> now \<longrightarrow>
         fst (read_polled seen now key) = Inl (KeyNotFound True) \<and>
         data (snd (read_polled seen now key)) = Map_delete key (data (seen n)) \<and>
         Map_get (data (snd (read_polled seen now key))) key = None \<and>
         isDirty (snd (read_polled seen now key)) \<and> saveTimeout (snd (read_polled seen now key))) \<and>
      (\<forall>item. Map_get (data (seen n)) key = Some item \<and>
              (expiry item = None \<or> expiry item = Some 0 \<or> (\<exists>t. expiry item = Some t \<and> now < t)) \<longrightarrow>
         fst (read_polled seen now key) = Inr (val item) \<and>
         data (snd (read_polled seen now key)) = data (seen n))"
    if a: "validateKey (seen 0) key = Inr () \<and> n \<le> 100 \<and> (\<forall>m < n. held (seen m) key) \<and>
      \<not> held (seen n) key"
  proof -
    from a have p: "read_polled seen now key =
           read_locked ((seen n)\<lparr>lock := Map_set key True (lock (seen n))\<rparr>) now key"
      using read_polled_proceeds by blast
    show ?thesis
      by (auto simp: p read_locked_def releaseLock_def scheduleSave_def expired_def truthy_def
          map_of_Map_delete split: option.splits)
  qed
  from invalid timeout proceeds show ?thesis by blast
qed

text \<open>
  A key of 33 characters; the key \<open>test\<close> with its lock held at every look; the same key
  read at the fourth look, after three looks that found the lock held; an absent key and
  a key that expired at 5500, read at 6000.
\<close>

theorem read_cases_witness:
  "validateKey default_store long_key \<noteq> Inr () \<and>
   read_polled (\<lambda>n. default_store) 1000 long_key = (Inl InvalidKey, default_store) \<and>
   validateKey store_with_test ''test'' = Inr () \<and>
   held (store_with_test\<lparr>lock := [(''test'', True)]\<rparr>) ''test'' \<and>
   fst (read_polled (\<lambda>n. store_with_test\<lparr>lock := [(''test'', True)]\<rparr>) 6000 ''test'') =
     Inl (LockTimeout ''test'') \<and>
   held (test_released_at_3 0) ''test'' \<and> held (test_released_at_3 1) ''test'' \<and>
   held (test_released_at_3 2) ''test'' \<and> \<not> held (test_released_at_3 3) ''test'' \<and>
   Map_get (data (test_released_at_3 3)) ''test'' = Some \<lparr>val = JNum 1, expiry = None\<rparr> \<and>
   fst (read_polled test_released_at_3 6000 ''test'') = Inr (JNum 1) \<and>
   Map_get (data store_zero_expiry) ''missing'' = None \<and>
   fst (read_polled (\<lambda>n. store_zero_expiry) 6000 ''missing'') = Inl (KeyNotFound False) \<and>
   Map_get (data (store_with_test\<lparr>data := [(''old'', \<lparr>val = JNum 7, expiry = Some 5500\<rparr>)]\<rparr>)) ''old'' =
     Some \<lparr>val = JNum 7, expiry = Some 5500\<rparr> \<and>
   fst (read_polled (\<lambda>n. store_with_test\<lparr>data := [(''old'', \<lparr>val = JNum 7, expiry = Some 5500\<rparr>)]\<rparr>) 6000 ''old'') =
     Inl (KeyNotFound True) \<and>
   data (snd (read_polled (\<lambda>n. store_with_test\<lparr>data := [(''old'', \<lparr>val = JNum 7, expiry = Some 5500\<rparr>)]\<rparr>) 6000 ''old'')) = []"
proof -
  let ?held = "store_with_test\<lparr>lock := [(''test'', True)]\<rparr>"
  let ?old = "store_with_test\<lparr>data := [(''old'', \<lparr>val = JNum 7, expiry = Some 5500\<rparr>)]\<rparr>"
  have i: "validateKey default_store long_key \<noteq> Inr ()"
    unfolding long_key_def by code_simp
  have v: "validateKey store_with_test ''test'' = Inr ()" "validateKey ?held ''test'' = Inr ()"
    and h: "held ?held ''test''" and f: "\<not> held store_with_test ''test''"
    and m: "Map_get (data store_with_test) ''test'' = Some \<lparr>val = JNum 1, expiry = None\<rparr>"
    by code_simp+
  have h3: "\<forall>m < 3. held (test_released_at_3 m) ''test''"
    using h by (simp add: test_released_at_3_def)
  have f3: "\<not> held (test_released_at_3 3) ''test''"
    and v3: "validateKey (test_released_at_3 0) ''test'' = Inr ()"
    and m3: "Map_get (data (test_released_at_3 3)) ''test'' = Some \<lparr>val = JNum 1, expiry = None\<rparr>"
    using f v m by (simp_all add: test_released_at_3_def)
  have v1: "validateKey store_zero_expiry ''missing'' = Inr ()" and h1: "\<not> held store_zero_expiry ''missing''"
    and m1: "Map_get (data store_zero_expiry) ''missing'' = None"
    by code_simp+
  have vo: "validateKey ?old ''old'' = Inr ()" and ho: "\<not> held ?old ''old''"
    and mo: "Map_get (data ?old) ''old'' = Some \<lparr>val = JNum 7, expiry = Some 5500\<rparr>"
    by code_simp+
  note w1 = read_cases [of "\<lambda>n. default_store" long_key 1000 0]
  note w2 = read_cases [of "\<lambda>n. ?held" "''test''" 6000 0]
  note w3 = read_cases [of test_released_at_3 "''test''" 6000 3]
  note w4 = read_cases [of "\<lambda>n. store_zero_expiry" "''missing''" 6000 0]
  note w5 = read_cases [of "\<lambda>n. ?old" "''old''" 6000 0]
  from w1 i have 1: "read_polled (\<lambda>n. default_store) 1000 long_key = (Inl InvalidKey, default_store)"
    by simp
  from w2 v h have 2: "fst (read_polled (\<lambda>n. ?held) 6000 ''test'') = Inl (LockTimeout ''test'')"
    by simp
  from w3 v3 h3 f3 m3 have 3: "fst (read_polled test_released_at_3 6000 ''test'') = Inr (JNum 1)"
    by simp
  from w4 v1 h1 m1 have 4: "fst (read_polled (\<lambda>n. store_zero_expiry) 6000 ''missing'') = Inl (KeyNotFound False)"
    by simp
  from w5 vo ho mo have 5: "fst (read_polled (\<lambda>n. ?old) 6000 ''old'') = Inl (KeyNotFound True)"
    "data (snd (read_polled (\<lambda>n. ?old) 6000 ''old'')) = []"
    by simp_all
  from h3 have h3': "held (test_released_at_3 0) ''test''" "held (test_released_at_3 1) ''test''"
    "held (test_released_at_3 2) ''test''"
    by simp_all
  from i 1 v h 2 h3' f3 m3 3 m1 4 mo 5 show ?thesis by simp
qed

text \<open>
  A key of 33 characters absent from the index fails with \<open>InvalidKey\<close>, an entry whose
  expiry is 0 is returned at time 6000, and a key whose lock is held fails with
  \<open>LockTimeout\<close>.
\<close>

theorem read_counterexample:
  "Map_get (data default_store) long_key = None \<and>
   fst (read default_store 1000 long_key) = Inl InvalidKey \<and>
   Map_get (data store_zero_expiry) ''k'' = Some \<lparr>val = JNum 1, expiry = Some 0\<rparr> \<and>
   fst (read store_zero_expiry 6000 ''k'') = Inr (JNum 1) \<and>
   Map_get (data (default_store\<lparr>lock := [(''k'', True)]\<rparr>)) ''k'' = None \<and>
   fst (read (default_store\<lparr>lock := [(''k'', True)]\<rparr>) 1000 ''k'') = Inl (LockTimeout ''k'')"
  unfolding long_key_def by code_simp

section \<open>Locks are released\<close>

lemma saveData_finish_lock: "lock (fst (snd (saveData_finish st fs io p))) = lock st"
  by (cases p) (auto simp: saveData_finish_def Let_def split: write_outcome.splits option.splits)

lemma create_lock:
  "lock (fst (snd (create st fs io now key v ttl))) = lock st \<or>
   (\<not> held st key \<and>
    lock (fst (snd (create st fs io now key v ttl))) = Map_delete key (Map_set key True (lock st)))"
proof (cases "create_begin st now key v ttl")
  case (Inl a)
  then show ?thesis
    by (cases a)
       (auto simp: create_begin_resume create_begin_def acquireLock_eq create_locked_begin_def
        create_catch_def releaseLock_def Let_def split: sum.splits if_splits)
next
  case (Inr st2)
  note w = create_begin_waiting [OF Inr]
  obtain r st3 fs3 where ex: "executeSave_finish st2 fs io = (r, st3, fs3)"
    by (cases "executeSave_finish st2 fs io" rule: prod_cases3)
  with executeSave_finish_lock [of st2 fs io] have "lock st3 = lock st2" by simp
  with w(1) have "lock st3 = Map_set key True (lock st)"
    by (simp add: queueSave_begin_fields)
  with Inr ex w(4) show ?thesis
    by (cases r)
       (simp_all add: create_begin_resume create_resume_def create_catch_def releaseLock_def)
qed

lemma read_lock:
  "lock (snd (read st now key)) = lock st \<or>
   (\<not> held st key \<and> lock (snd (read st now key)) = Map_delete key (Map_set key True (lock st)))"
  by (auto simp: read_alone read_locked_def releaseLock_def scheduleSave_def
      split: sum.splits option.splits)

lemma delete_lock:
  "lock (snd (delete st now key)) = lock st \<or>
   (\<not> held st key \<and> lock (snd (delete st now key)) = Map_delete key (Map_set key True (lock st)))"
  by (auto simp: delete_alone delete_locked_def releaseLock_def scheduleSave_def
      split: sum.splits option.splits)

lemma compact_lock:
  "lock (fst (snd (compact st fs io now))) = lock st \<or>
   (\<not> held st ''compact'' \<and>
    lock (fst (snd (compact st fs io now))) = Map_delete ''compact'' (Map_set ''compact'' True (lock st)))"
proof (cases "held st ''compact''")
  case True
  then show ?thesis by (simp add: compact_alone)
next
  case False
  let ?st2 = "sweep now (st\<lparr>lock := Map_set ''compact'' True (lock st)\<rparr>)"
  have l2: "lock ?st2 = Map_set ''compact'' True (lock st)" by (simp add: sweep_def)
  have "lock (fst (snd (compact_resume ?st2 (saveData_begin ?st2) fs io))) =
          Map_delete ''compact'' (lock ?st2)"
  proof (cases "saveData_begin ?st2")
    case (Inl e)
    then show ?thesis by (simp add: compact_resume_def releaseLock_def)
  next
    case (Inr p)
    with saveData_finish_lock [of ?st2 fs io p] show ?thesis
      by (cases "saveData_finish ?st2 fs io p" rule: prod_cases3)
         (simp add: compact_resume_def releaseLock_def)
  qed
  with False l2 show ?thesis
    by (simp add: compact_alone compact_locked_def compact_locked_begin_def Let_def)
qed

text \<open>The locks of a batch.\<close>

lemma lock_releaseAll:
  "map_of (lock (releaseAll st ks)) = (\<lambda>k. if k \<in> set ks then None else map_of (lock st) k)"
  by (induction ks arbitrary: st) (auto simp: releaseLock_def map_of_Map_delete fun_eq_iff)

lemma acquireAll_invariant:
  assumes "acquireAll st items locks = (r, st1, locks1)"
    and "\<forall>k \<in> set locks. held st k"
  shows "\<forall>k. map_of (lock st1) k = (if k \<in> set locks1 - set locks then Some True else map_of (lock st) k)"
    and "set locks \<subseteq> set locks1"
    and "\<forall>k \<in> set locks1 - set locks. \<not> held st k"
    and "st1 = st\<lparr>lock := lock st1\<rparr>"
  using assms
proof (induction st items locks rule: acquireAll.induct)
  case (1 st locks)
  {
    case 1 then show ?case by simp
  next
    case 2 then show ?case by simp
  next
    case 3 then show ?case by simp
  next
    case 4 then show ?case by simp
  }
next
  case (2 st key v ttl items locks)
  let ?locks' = "if key \<in> set locks then locks else locks @ [key]"
  let ?st' = "st\<lparr>lock := Map_set key True (lock st)\<rparr>"
  {
    assume a: "acquireAll st ((key, v, ttl) # items) locks = (r, st1, locks1)"
      and inv: "\<forall>k \<in> set locks. held st k"
    have "(\<forall>k. map_of (lock st1) k = (if k \<in> set locks1 - set locks then Some True else map_of (lock st) k))
        \<and> set locks \<subseteq> set locks1 \<and> (\<forall>k \<in> set locks1 - set locks. \<not> held st k)
        \<and> st1 = st\<lparr>lock := lock st1\<rparr>"
    proof (cases "held st key")
      case True
      with a show ?thesis by (simp add: acquireLock_eq)
    next
      case False
      with inv have notin: "key \<notin> set locks" by auto
      from False have acq: "acquireLock st key = Inr ?st'" by (simp add: acquireLock_eq)
      from a acq have a': "acquireAll ?st' items ?locks' = (r, st1, locks1)" by simp
      from inv have inv': "\<forall>k \<in> set ?locks'. held ?st' k"
        by (auto simp: held_def map_of_Map_set)
      note ih = "2.IH"(1)[OF acq a' inv'] "2.IH"(2)[OF acq a' inv'] "2.IH"(3)[OF acq a' inv']
        "2.IH"(4)[OF acq a' inv']
      from ih(2) notin have sub: "key \<in> set locks1" "set locks \<subseteq> set locks1" by auto
      have "\<forall>k. map_of (lock st1) k = (if k \<in> set locks1 - set locks then Some True else map_of (lock st) k)"
        using ih(1) notin sub by (auto simp: map_of_Map_set)
      moreover have "\<forall>k \<in> set locks1 - set locks. \<not> held st k"
        using ih(3) notin False by (auto simp: held_def map_of_Map_set split: if_splits)
      moreover have "st1 = st\<lparr>lock := lock st1\<rparr>"
        using ih(4) by (metis (no_types, lifting) store.surjective store.update_convs(3))
      ultimately show ?thesis using sub by simp
    qed
  }
  note step = this
  {
    case 1 with step show ?case by blast
  next
    case 2 with step show ?case by blast
  next
    case 3 with step show ?case by blast
  next
    case 4 with step show ?case by blast
  }
qed

lemma lock_insertAll: "lock (insertAll now items st) = lock st"
  by (induction now items st rule: insertAll.induct) auto

lemma batchCreate_lock:
  "\<exists>ks. (\<forall>k \<in> set ks. \<not> held st k) \<and>
        map_of (lock (snd (batchCreate st now items))) =
          (\<lambda>k. if k \<in> set ks then None else map_of (lock st) k)"
proof -
  obtain failedKeys validItems totalNewSize
    where vl: "validateLoop st now items ([], [], 0) = (failedKeys, validItems, totalNewSize)"
    by (cases "validateLoop st now items ([], [], 0)" rule: prod_cases3)
  obtain r st1 locks where aa: "acquireAll st validItems [] = (r, st1, locks)"
    by (cases "acquireAll st validItems []" rule: prod_cases3)
  have trivial: "(\<forall>k \<in> set []. \<not> held st k) \<and>
      map_of (lock st) = (\<lambda>k. if k \<in> set [] then None else map_of (lock st) k)"
    by simp
  note inv = acquireAll_invariant [OF aa]
  have after: "map_of (lock (releaseAll st' locks)) = (\<lambda>k. if k \<in> set locks then None else map_of (lock st) k)"
    if "lock st' = lock st1" for st'
    using inv(1) that by (auto simp: lock_releaseAll fun_eq_iff)
  have nh: "\<forall>k \<in> set locks. \<not> held st k" using inv(3) by simp
  show ?thesis
  proof (cases "int (length items) > maxBatchSize st \<or> currentSize st + totalNewSize > maxFileSize st")
    case True
    with trivial show ?thesis
      by (intro exI [of _ "[]"]) (auto simp: batchCreate_def vl)
  next
    case False
    show ?thesis
    proof (cases r)
      case (Inl e)
      with False nh after [of st1] show ?thesis
        by (intro exI [of _ locks]) (simp add: batchCreate_def vl aa)
    next
      case (Inr u)
      with False nh after [of "scheduleSave (insertAll now validItems st1)"] show ?thesis
        by (intro exI [of _ locks]) (simp add: batchCreate_def vl aa scheduleSave_def lock_insertAll)
    qed
  qed
qed

lemma held_if_removed:
  assumes "\<forall>k \<in> set ks. \<not> held st k"
    and "map_of (lock st') = (\<lambda>k. if k \<in> set ks then None else map_of (lock st) k)"
  shows "held st' = held st"
  using assms by (auto simp: held_def fun_eq_iff)

text \<open>
  C10: whatever \<open>create\<close>, \<open>read\<close>, \<open>delete\<close>, \<open>batchCreate\<close> and \<open>compact\<close> return, a
  result or an error, the keys held after the operation are the keys held before it
  (every lock the operation acquired has been released), and an operation that starts
  with an empty lock table ends with an empty lock table.
\<close>

theorem locks_released:
  "held (fst (snd (create st fs io now key v ttl))) = held st \<and>
   held (snd (read st now key)) = held st \<and>
   held (snd (delete st now key)) = held st \<and>
   held (snd (batchCreate st now items)) = held st \<and>
   held (fst (snd (compact st fs io now))) = held st \<and>
   (lock st = [] \<longrightarrow>
      lock (fst (snd (create st fs io now key v ttl))) = [] \<and>
      lock (snd (read st now key)) = [] \<and>
      lock (snd (delete st now key)) = [] \<and>
      lock (snd (batchCreate st now items)) = [] \<and>
      lock (fst (snd (compact st fs io now))) = [])"
proof -
  have same: "held st' = held st"
    if "lock st' = lock st \<or> (\<not> held st k \<and> lock st' = Map_delete k (Map_set k True (lock st)))"
    for st' :: store and k
    using that by (auto simp: held_def fun_eq_iff map_of_Map_delete map_of_Map_set split: if_splits)
  have empty: "lock st' = []"
    if "lock st = []"
      and "lock st' = lock st \<or> (\<not> held st k \<and> lock st' = Map_delete k (Map_set k True (lock st)))"
    for st' :: store and k
    using that by auto
  obtain ks where ks: "\<forall>k \<in> set ks. \<not> held st k"
    "map_of (lock (snd (batchCreate st now items))) = (\<lambda>k. if k \<in> set ks then None else map_of (lock st) k)"
    using batchCreate_lock [of st now items] by blast
  have batch_empty: "lock (snd (batchCreate st now items)) = []" if "lock st = []"
  proof -
    from ks(2) that have "map_of (lock (snd (batchCreate st now items))) = Map.empty"
      by (simp add: fun_eq_iff)
    then show ?thesis by simp
  qed
  show ?thesis
    using same [OF create_lock] same [OF read_lock] same [OF delete_lock] same [OF compact_lock]
      held_if_removed [OF ks] batch_empty
      empty [OF _ create_lock] empty [OF _ read_lock] empty [OF _ delete_lock] empty [OF _ compact_lock]
    by simp
qed

text \<open>A create that fails with an error and a batch of two keys, on a store whose lock table is empty.\<close>

theorem locks_released_witness:
  "lock store_with_test = [] \<and>
   fst (create store_with_test no_files io_ok 2000 ''test'' (JNum 2) None) = Inl KeyExists \<and>
   lock (fst (snd (create store_with_test no_files io_ok 2000 ''test'' (JNum 2) None))) = [] \<and>
   fst (batchCreate store_with_test 2000 [(''a'', JNum 1, None), (''b'', JNum 2, None)]) = Inr [] \<and>
   lock (snd (batchCreate store_with_test 2000 [(''a'', JNum 1, None), (''b'', JNum 2, None)])) = []"
proof -
  have e: "lock store_with_test = []"
    and c: "fst (create store_with_test no_files io_ok 2000 ''test'' (JNum 2) None) = Inl KeyExists"
    and b: "fst (batchCreate store_with_test 2000 [(''a'', JNum 1, None), (''b'', JNum 2, None)]) = Inr []"
    by code_simp+
  from locks_released [of store_with_test no_files io_ok 2000 "''test''" "JNum 2" None
      "[(''a'', JNum 1, None), (''b'', JNum 2, None)]"] e c b
  show ?thesis by simp
qed

section \<open>The save\<close>






section \<open>Batch create\<close>

text \<open>
  C4, evaluated: the validation loop of \<open>batchCreate\<close> adds the estimated size of an item
  to \<open>totalNewSize\<close> before it tests whether the key collides. On a store limited to 40
  bytes that holds the key \<open>k\<close> (31 bytes), the batch \<open>[["k", 2, null]]\<close> has no surviving
  item, yet its 31 bytes are counted and the batch fails with \<open>QuotaExceeded\<close>.
\<close>

theorem batch_quota_counts_colliding:
  "currentSize small_store_with_k = 31 \<and> maxFileSize small_store_with_k = 40 \<and>
   has_unexpired small_store_with_k 2000 ''k'' \<and>
   validateLoop small_store_with_k 2000 [(''k'', JNum 2, None)] ([], [], 0) = ([''k''], [], 31) \<and>
   fst (batchCreate small_store_with_k 2000 [(''k'', JNum 2, None)]) = Inl QuotaExceeded"
  by code_simp

text \<open>
  C5, evaluated: both occurrences of a key that a batch contains twice pass the
  validation, and the lock loop then asks for the lock of that key a second time while
  the batch itself holds it: the batch fails with \<open>LockTimeout\<close> and inserts nothing.
\<close>

theorem batch_duplicate_key_times_out:
  "data default_store = [] \<and>
   validateLoop default_store 1000 [(''a'', JNum 1, None), (''a'', JNum 2, None)] ([], [], 0) =
     ([], [(''a'', JNum 1, None), (''a'', JNum 2, None)], 62) \<and>
   fst (batchCreate default_store 1000 [(''a'', JNum 1, None), (''a'', JNum 2, None)]) =
     Inl (LockTimeout ''a'') \<and>
   data (snd (batchCreate default_store 1000 [(''a'', JNum 1, None), (''a'', JNum 2, None)])) = []"
  by code_simp

section \<open>The lock of the compaction\<close>

text \<open>An operation looks at the lock table only through the lock of its own key.\<close>

lemma saveData_begin_lock_frame: "saveData_begin (st\<lparr>lock := L\<rparr>) = saveData_begin st"
  by (simp add: saveData_begin_def)

lemma saveData_finish_lock_frame:
  "saveData_finish (st\<lparr>lock := L\<rparr>) fs io p =
     (case saveData_finish st fs io p of (r, s, f) \<Rightarrow> (r, s\<lparr>lock := L\<rparr>, f))"
  by (cases p)
     (auto simp: saveData_finish_def Let_def fs_error_def split: write_outcome.splits option.splits)

lemma executeSave_finish_lock_frame:
  "executeSave_finish (st\<lparr>lock := L\<rparr>) fs io =
     (case executeSave_finish st fs io of (r, s, f) \<Rightarrow> (r, s\<lparr>lock := L\<rparr>, f))"
proof (cases "savePromise st")
  case None
  then show ?thesis by (simp add: executeSave_finish_def)
next
  case (Some p)
  show ?thesis
  proof (cases p)
    case (Inl e)
    with Some show ?thesis by (simp add: executeSave_finish_def)
  next
    case (Inr q)
    with Some show ?thesis
      by (cases "saveData_finish st fs io q" rule: prod_cases3)
         (simp add: executeSave_finish_def saveData_finish_lock_frame)
  qed
qed

lemma create_locked_lock_independent:
  "fst (create_locked (st\<lparr>lock := L\<rparr>) fs io now key v ttl) = fst (create_locked st fs io now key v ttl) \<and>
   data (fst (snd (create_locked (st\<lparr>lock := L\<rparr>) fs io now key v ttl))) =
     data (fst (snd (create_locked st fs io now key v ttl))) \<and>
   currentSize (fst (snd (create_locked (st\<lparr>lock := L\<rparr>) fs io now key v ttl))) =
     currentSize (fst (snd (create_locked st fs io now key v ttl)))"
proof (cases "create_locked_begin st now key v ttl")
  case (Inl a)
  then show ?thesis
    by (cases a)
       (auto simp: create_locked_def create_locked_begin_def has_unexpired_def Let_def
        create_catch_def releaseLock_def split: if_splits)
next
  case (Inr st2)
  then have b: "create_locked_begin (st\<lparr>lock := L\<rparr>) now key v ttl = Inr (st2\<lparr>lock := L\<rparr>)"
    by (auto simp: create_locked_begin_def has_unexpired_def Let_def queueSave_begin_def
        saveData_begin_def split: if_splits)
  obtain r st3 fs3 where ex: "executeSave_finish st2 fs io = (r, st3, fs3)"
    by (cases "executeSave_finish st2 fs io" rule: prod_cases3)
  then have ex': "executeSave_finish (st2\<lparr>lock := L\<rparr>) fs io = (r, st3\<lparr>lock := L\<rparr>, fs3)"
    by (simp add: executeSave_finish_lock_frame)
  from Inr b ex ex' show ?thesis
    by (cases r) (simp_all add: create_locked_def create_resume_def create_catch_def releaseLock_def)
qed

lemma create_lock_independent:
  assumes "held (st\<lparr>lock := L\<rparr>) key = held st key"
  shows "fst (create (st\<lparr>lock := L\<rparr>) fs io now key v ttl) = fst (create st fs io now key v ttl) \<and>
         data (fst (snd (create (st\<lparr>lock := L\<rparr>) fs io now key v ttl))) =
           data (fst (snd (create st fs io now key v ttl)))"
proof (cases "validateKey st key = Inr () \<and> validateValue st v = Inr () \<and> \<not> held st key")
  case False
  with assms show ?thesis
    by (auto simp: create_alone validateKey_def validateValue_def split: if_splits)
next
  case True
  with assms have k: "validateKey (st\<lparr>lock := L\<rparr>) key = Inr ()"
    "validateValue (st\<lparr>lock := L\<rparr>) v = Inr ()" "\<not> held (st\<lparr>lock := L\<rparr>) key"
    by (auto simp: validateKey_def validateValue_def)
  from create_locked_lock_independent [where st = st and L = "Map_set key True L"]
    create_locked_lock_independent [where st = st and L = "Map_set key True (lock st)"]
    True k
  show ?thesis by (simp add: create_alone)
qed

lemma read_lock_independent:
  assumes "held (st\<lparr>lock := L\<rparr>) key = held st key"
  shows "fst (read (st\<lparr>lock := L\<rparr>) now key) = fst (read st now key) \<and>
         data (snd (read (st\<lparr>lock := L\<rparr>) now key)) = data (snd (read st now key))"
  using assms
  by (auto simp: read_alone read_locked_def validateKey_def releaseLock_def scheduleSave_def
      split: option.splits)

lemma delete_lock_independent:
  assumes "held (st\<lparr>lock := L\<rparr>) key = held st key"
  shows "fst (delete (st\<lparr>lock := L\<rparr>) now key) = fst (delete st now key) \<and>
         data (snd (delete (st\<lparr>lock := L\<rparr>) now key)) = data (snd (delete st now key))"
  using assms
  by (auto simp: delete_alone delete_locked_def validateKey_def releaseLock_def scheduleSave_def
      split: option.splits)

lemma held_release_other:
  "key \<noteq> k \<Longrightarrow> held (st\<lparr>lock := Map_delete k (lock st)\<rparr>) key = held st key"
  by (simp add: held_def map_of_Map_delete)

text \<open>
  C6, as the code has it: the lock \<open>compact\<close> makes only the operations that take that
  same lock wait, a second \<open>compact\<close> and \<open>create\<close>, \<open>read\<close> and \<open>delete\<close> of the key
  \<open>compact\<close>. Such an operation looks at the lock up to 101 times, 10 ms apart: when the
  lock is held at every look it fails with \<open>LockTimeout\<close> and changes nothing; when a
  look finds the lock free it takes the lock and proceeds in the store as it is at that
  look. \<open>create\<close>, \<open>read\<close> and \<open>delete\<close> of every other key return the result and produce
  the index they would with the lock \<open>compact\<close> free.
\<close>

theorem compact_lock_scope:
  "((\<forall>n \<le> 100. held (seen n) ''compact'') \<longrightarrow>
      compact_polled seen fs io now = (Inl (LockTimeout ''compact''), seen 100, fs) \<and>
      (validateKey (seen 0) ''compact'' = Inr () \<longrightarrow>
         read_polled seen now ''compact'' = (Inl (LockTimeout ''compact''), seen 100) \<and>
         delete_polled seen now ''compact'' = (Inl (LockTimeout ''compact''), seen 100) \<and>
         (validateValue (seen 0) v = Inr () \<longrightarrow>
            create_polled seen fs io now ''compact'' v ttl =
              (Inl (LockTimeout ''compact''), seen 100, fs)))) \<and>
   (n \<le> 100 \<and> (\<forall>m < n. held (seen m) ''compact'') \<and> \<not> held (seen n) ''compact'' \<longrightarrow>
      compact_polled seen fs io now =
        compact_locked ((seen n)\<lparr>lock := Map_set ''compact'' True (lock (seen n))\<rparr>) fs io now \<and>
      (validateKey (seen 0) ''compact'' = Inr () \<longrightarrow>
         read_polled seen now ''compact'' =
           read_locked ((seen n)\<lparr>lock := Map_set ''compact'' True (lock (seen n))\<rparr>) now ''compact'' \<and>
         delete_polled seen now ''compact'' =
           delete_locked ((seen n)\<lparr>lock := Map_set ''compact'' True (lock (seen n))\<rparr>) now ''compact'' \<and>
         (validateValue (seen 0) v = Inr () \<longrightarrow>
            create_polled seen fs io now ''compact'' v ttl =
              create_locked ((seen n)\<lparr>lock := Map_set ''compact'' True (lock (seen n))\<rparr>)
                fs io now ''compact'' v ttl))) \<and>
   (key \<noteq> ''compact'' \<longrightarrow>
      fst (create st fs io now key v ttl) =
        fst (create (releaseLock st ''compact'') fs io now key v ttl) \<and>
      data (fst (snd (create st fs io now key v ttl))) =
        data (fst (snd (create (releaseLock st ''compact'') fs io now key v ttl))) \<and>
      fst (read st now key) = fst (read (releaseLock st ''compact'') now key) \<and>
      data (snd (read st now key)) = data (snd (read (releaseLock st ''compact'') now key)) \<and>
      fst (delete st now key) = fst (delete (releaseLock st ''compact'') now key) \<and>
      data (snd (delete st now key)) = data (snd (delete (releaseLock st ''compact'') now key)))"
proof -
  have waits: "compact_polled seen fs io now = (Inl (LockTimeout ''compact''), seen 100, fs) \<and>
      (validateKey (seen 0) ''compact'' = Inr () \<longrightarrow>
         read_polled seen now ''compact'' = (Inl (LockTimeout ''compact''), seen 100) \<and>
         delete_polled seen now ''compact'' = (Inl (LockTimeout ''compact''), seen 100) \<and>
         (validateValue (seen 0) v = Inr () \<longrightarrow>
            create_polled seen fs io now ''compact'' v ttl =
              (Inl (LockTimeout ''compact''), seen 100, fs)))"
    if h: "\<forall>n \<le> 100. held (seen n) ''compact''"
    using polled_timeout [OF h] read_polled_timeout [where seen = seen and key = "''compact''" and now = now] h by simp
  have goes: "compact_polled seen fs io now =
        compact_locked ((seen n)\<lparr>lock := Map_set ''compact'' True (lock (seen n))\<rparr>) fs io now \<and>
      (validateKey (seen 0) ''compact'' = Inr () \<longrightarrow>
         read_polled seen now ''compact'' =
           read_locked ((seen n)\<lparr>lock := Map_set ''compact'' True (lock (seen n))\<rparr>) now ''compact'' \<and>
         delete_polled seen now ''compact'' =
           delete_locked ((seen n)\<lparr>lock := Map_set ''compact'' True (lock (seen n))\<rparr>) now ''compact'' \<and>
         (validateValue (seen 0) v = Inr () \<longrightarrow>
            create_polled seen fs io now ''compact'' v ttl =
              create_locked ((seen n)\<lparr>lock := Map_set ''compact'' True (lock (seen n))\<rparr>)
                fs io now ''compact'' v ttl))"
    if a: "n \<le> 100" and b: "\<forall>m < n. held (seen m) ''compact''" and c: "\<not> held (seen n) ''compact''"
    using polled_proceeds [OF a b c] read_polled_proceeds [where seen = seen and key = "''compact''" and n = n and now = now] a b c
    by simp
  have other: "fst (create st fs io now key v ttl) =
              fst (create (releaseLock st ''compact'') fs io now key v ttl) \<and>
            data (fst (snd (create st fs io now key v ttl))) =
              data (fst (snd (create (releaseLock st ''compact'') fs io now key v ttl))) \<and>
            fst (read st now key) = fst (read (releaseLock st ''compact'') now key) \<and>
            data (snd (read st now key)) = data (snd (read (releaseLock st ''compact'') now key)) \<and>
            fst (delete st now key) = fst (delete (releaseLock st ''compact'') now key) \<and>
            data (snd (delete st now key)) = data (snd (delete (releaseLock st ''compact'') now key))"
    if "key \<noteq> ''compact''"
    using create_lock_independent [OF held_release_other [OF that], of st fs io now v ttl]
      read_lock_independent [OF held_release_other [OF that], of st now]
      delete_lock_independent [OF held_release_other [OF that], of st now]
    by (simp add: releaseLock_def)
  from waits goes other show ?thesis by blast
qed

text \<open>
  A second \<open>compact\<close> beside a compaction that waits for its save: it fails when the first
  holds the lock at all its looks, and succeeds when the first ends during the third
  sleep. A delete of the key \<open>test\<close> beside the waiting compaction.
\<close>

theorem compact_lock_scope_witness:
  "held compacting ''compact'' \<and>
   compact_polled (\<lambda>n. compacting) no_files io_ok 2001 =
     (Inl (LockTimeout ''compact''), compacting, no_files) \<and>
   held (released_at_3 0) ''compact'' \<and> held (released_at_3 1) ''compact'' \<and>
   held (released_at_3 2) ''compact'' \<and> \<not> held (released_at_3 3) ''compact'' \<and>
   fst (compact_polled released_at_3 no_files io_ok 2010) = Inr () \<and>
   validateKey (released_at_3 0) ''compact'' = Inr () \<and>
   fst (read_polled released_at_3 2010 ''compact'') = Inl (KeyNotFound False) \<and>
   ''test'' \<noteq> ''compact'' \<and>
   fst (delete compacting 2001 ''test'') = Inr () \<and>
   fst (delete (releaseLock compacting ''compact'') 2001 ''test'') = Inr () \<and>
   data (snd (delete compacting 2001 ''test'')) = []"
proof -
  let ?free = "(released_at_3 3)\<lparr>lock := Map_set ''compact'' True (lock (released_at_3 3))\<rparr>"
  have h: "held compacting ''compact''" and n: "''test'' \<noteq> ''compact''"
    and d: "fst (delete (releaseLock compacting ''compact'') 2001 ''test'') = Inr ()"
      "data (snd (delete (releaseLock compacting ''compact'') 2001 ''test'')) = []"
    unfolding compacting_def by code_simp+
  have f: "\<not> held (released_at_3 3) ''compact''"
    and k: "validateKey (released_at_3 0) ''compact'' = Inr ()"
    and c: "fst (compact_locked ?free no_files io_ok 2010) = Inr ()"
    and r: "fst (read_locked ?free 2010 ''compact'') = Inl (KeyNotFound False)"
    by code_simp+
  from h have w: "\<forall>m < 3. held (released_at_3 m) ''compact''"
    by (simp add: released_at_3_def)
  from compact_lock_scope [of "\<lambda>n. compacting" no_files io_ok 2001 "JNum 1" None 0
      "''test''" compacting] h n d
  have first: "compact_polled (\<lambda>n. compacting) no_files io_ok 2001 =
       (Inl (LockTimeout ''compact''), compacting, no_files) \<and>
     fst (delete compacting 2001 ''test'') = Inr () \<and>
     data (snd (delete compacting 2001 ''test'')) = []"
    by simp
  from compact_lock_scope [of released_at_3 no_files io_ok 2010 "JNum 1" None 3
      "''test''" compacting] w f k c r
  have second: "fst (compact_polled released_at_3 no_files io_ok 2010) = Inr () \<and>
     fst (read_polled released_at_3 2010 ''compact'') = Inl (KeyNotFound False)"
    by simp
  from w have w': "held (released_at_3 0) ''compact''" "held (released_at_3 1) ''compact''"
    "held (released_at_3 2) ''compact''"
    by simp_all
  from h n d f k w' first second show ?thesis by simp
qed

text \<open>
  Between the sweep of a compaction and the end of its save, with the lock \<open>compact\<close>
  held, a \<open>delete\<close> removes the key \<open>test\<close> from the index; the compaction then completes
  its save.
\<close>

theorem compact_lock_counterexample:
  "compact_begin store_with_test 2000 = Inr (compacting, pending_save) \<and>
   held compacting ''compact'' \<and>
   Map_get (data compacting) ''test'' = Some \<lparr>val = JNum 1, expiry = None\<rparr> \<and>
   fst (delete compacting 2001 ''test'') = Inr () \<and>
   Map_get (data (snd (delete compacting 2001 ''test''))) ''test'' = None \<and>
   held (snd (delete compacting 2001 ''test'')) ''compact'' \<and>
   fst (compact_resume (snd (delete compacting 2001 ''test'')) pending_save no_files io_ok) = Inr ()"
  unfolding compacting_def pending_save_def by code_simp

section \<open>Saving and loading again\<close>

lemma map_of_filter_entries:
  "distinct (map fst xs) \<Longrightarrow>
   map_of (filter (\<lambda>(k, e). P e) xs) k =
     (case map_of xs k of None \<Rightarrow> None | Some e \<Rightarrow> if P e then Some e else None)"
proof (induction xs)
  case Nil
  then show ?case by simp
next
  case (Cons p xs)
  obtain k' e' where p: "p = (k', e')" by (cases p)
  from Cons.prems p have "map_of xs k' = None"
    by (auto simp: map_of_eq_None_iff)
  with Cons p show ?case by auto
qed

text \<open>After a successful save of an index without the key \<open>__proto__\<close> the file holds the
  index.\<close>

lemma saveData_written:
  assumes "distinct (map fst (data st))"
    and "''__proto__'' \<notin> fst ` set (data st)"
    and "fst (saveData st fs io) = Inr ()"
  shows "snd (snd (saveData st fs io)) (filePath st) = Some (Document (data st))"
proof -
  have fd: "fst (saveLoop (data st) ([], 0)) = data st"
    using saveLoop_fileData [OF assms(1) assms(2), of "[]" 0] by simp
  obtain fd' t where sl: "saveLoop (data st) ([], 0) = (fd', t)" by (cases "saveLoop (data st) ([], 0)")
  with fd have fd': "fd' = data st" by simp
  from assms(3) have ok: "t \<le> maxFileSize st" "write_result io = Written" "rename_error io = None"
    by (auto simp: saveData_def saveData_begin_def saveData_finish_def sl Let_def
        split: write_outcome.splits option.splits if_splits)
  then show ?thesis
    by (simp add: saveData_def saveData_begin_def saveData_finish_def sl fd' Let_def
        fs_put_def fs_rename_def)
qed

text \<open>
  C8, as the code has it: after a successful save of an index without the key
  \<open>__proto__\<close>, \<open>initialize\<close> of a new store on the same file path first takes the lock of
  the file and fails when it cannot, with \<open>StoreBusy\<close> when the lock is held (as it is
  while the saving store has not released it). With the lock taken, it fails with the
  error of reading the file when that is not \<open>ENOENT\<close> and starts empty when it is
  \<open>ENOENT\<close>; when the file is read it fails with the error of the file size if the
  written file is larger than the maximum file size of the new store. Otherwise it
  succeeds, the new store holds exactly the saved entries that are unexpired at load time
  (no expiry, expiry zero, or expiry after the load time), with their values and
  expiries, and its size total is the sum of the estimated sizes of these entries.
\<close>

theorem reload_after_save:
  assumes "distinct (map fst (data st))"
    and "''__proto__'' \<notin> fst ` set (data st)"
    and "fst (saveData st fs io) = Inr ()"
  shows "(\<forall>c. flock_error io' = Some c \<longrightarrow>
            fst (initialize (KVStore (filePath st) opts) (snd (snd (saveData st fs io))) io' now) =
              (if c = ELOCKED then Inl StoreBusy else Inl (IOFailure c))) \<and>
         (\<forall>c. flock_error io' = None \<and> read_error io' = Some c \<and> c \<noteq> ENOENT \<longrightarrow>
            fst (initialize (KVStore (filePath st) opts) (snd (snd (saveData st fs io))) io' now) =
              Inl (IOFailure c)) \<and>
         (flock_error io' = None \<and> read_error io' = Some ENOENT \<longrightarrow>
            fst (initialize (KVStore (filePath st) opts) (snd (snd (saveData st fs io))) io' now) = Inr () \<and>
            data (fst (snd (initialize (KVStore (filePath st) opts)
                              (snd (snd (saveData st fs io))) io' now))) = [] \<and>
            currentSize (fst (snd (initialize (KVStore (filePath st) opts)
                                     (snd (snd (saveData st fs io))) io' now))) = 0) \<and>
         (flock_error io' = None \<and> read_error io' = None \<and>
          file_size (Document (data st)) > maxFileSize (KVStore (filePath st) opts) \<longrightarrow>
            fst (initialize (KVStore (filePath st) opts) (snd (snd (saveData st fs io))) io' now) =
              Inl QuotaExceeded) \<and>
         (flock_error io' = None \<and> read_error io' = None \<and>
          file_size (Document (data st)) \<le> maxFileSize (KVStore (filePath st) opts) \<longrightarrow>
            fst (initialize (KVStore (filePath st) opts) (snd (snd (saveData st fs io))) io' now) = Inr () \<and>
            (\<forall>k. Map_get (data (fst (snd (initialize (KVStore (filePath st) opts)
                                           (snd (snd (saveData st fs io))) io' now)))) k =
                  (case Map_get (data st) k of
                     None \<Rightarrow> None
                   | Some e \<Rightarrow> if unexpired now e then Some e else None)) \<and>
            currentSize (fst (snd (initialize (KVStore (filePath st) opts)
                                    (snd (snd (saveData st fs io))) io' now))) =
              total_size (data (fst (snd (initialize (KVStore (filePath st) opts)
                                           (snd (snd (saveData st fs io))) io' now)))))"
proof -
  let ?new = "KVStore (filePath st) opts"
  let ?fs1 = "snd (snd (saveData st fs io))"
  let ?live = "filter (\<lambda>(k, e). unexpired now e) (data st)"
  have written: "?fs1 (filePath st) = Some (Document (data st))"
    using assms by (rule saveData_written)
  have path: "filePath ?new = filePath st" and empty: "data ?new = []"
    by (simp_all add: KVStore_def)
  let ?start = "?new\<lparr>lockInstance := True, data := [], currentSize := 0\<rparr>"
  have busy: "fst (initialize ?new ?fs1 io' now) =
      (if c = ELOCKED then Inl StoreBusy else Inl (IOFailure c))"
    if "flock_error io' = Some c" for c
    using that written path by (simp add: initialize_def)
  have unread: "fst (initialize ?new ?fs1 io' now) = Inl (IOFailure c)"
    if "flock_error io' = None" and "read_error io' = Some c" and "c \<noteq> ENOENT" for c
    using that written path by (simp add: initialize_def loadData_def)
  have gone: "fst (initialize ?new ?fs1 io' now) = Inr () \<and>
      data (fst (snd (initialize ?new ?fs1 io' now))) = [] \<and>
      currentSize (fst (snd (initialize ?new ?fs1 io' now))) = 0"
    if "flock_error io' = None" and "read_error io' = Some ENOENT"
    using that written path empty by (simp add: initialize_def loadData_def)
  have large: "fst (initialize ?new ?fs1 io' now) = Inl QuotaExceeded"
    if "flock_error io' = None" and "read_error io' = None"
      and "file_size (Document (data st)) > maxFileSize ?new"
    using that written path by (simp add: initialize_def loadData_def)
  have loaded: "fst (initialize ?new ?fs1 io' now) = Inr () \<and>
      (\<forall>k. Map_get (data (fst (snd (initialize ?new ?fs1 io' now)))) k =
            (case Map_get (data st) k of
               None \<Rightarrow> None
             | Some e \<Rightarrow> if unexpired now e then Some e else None)) \<and>
      currentSize (fst (snd (initialize ?new ?fs1 io' now))) =
        total_size (data (fst (snd (initialize ?new ?fs1 io' now))))"
    if l: "flock_error io' = None" and r: "read_error io' = None"
      and s: "file_size (Document (data st)) \<le> maxFileSize ?new"
  proof -
    have ll: "loadLoop now (data st) ?start =
        ?start\<lparr>data := data ?start @ ?live, currentSize := currentSize ?start + total_size ?live\<rparr>"
      using assms(1) by (intro loadLoop_eq) simp_all
    have ld: "loadData (?new\<lparr>lockInstance := True\<rparr>) ?fs1 io' now =
        (Inr (), ?start\<lparr>data := ?live, currentSize := total_size ?live\<rparr>)"
      using s r written path ll by (simp add: loadData_def)
    have init: "initialize ?new ?fs1 io' now =
        (Inr (), ?start\<lparr>data := ?live, currentSize := total_size ?live\<rparr>, ?fs1)"
      using l written path ld by (simp add: initialize_def)
    show ?thesis
      using assms(1) by (simp add: init map_of_filter_entries)
  qed
  from busy unread gone large loaded show ?thesis by blast
qed

text \<open>
  The store with the keys \<open>test\<close> and \<open>b\<close> (expiry 61500), saved and loaded again at time
  70000; the same while the lock of the file is held; and the store limited to 40 bytes
  with the key \<open>kk\<close>, whose file has 41 bytes.
\<close>

theorem reload_after_save_witness:
  "distinct (map fst (data store_two)) \<and>
   ''__proto__'' \<notin> fst ` set (data store_two) \<and>
   fst (saveData store_two no_files io_ok) = Inr () \<and>
   flock_error io_ok = None \<and> read_error io_ok = None \<and>
   file_size (Document (data store_two)) \<le> maxFileSize default_store \<and>
   fst (initialize default_store (snd (snd (saveData store_two no_files io_ok))) io_ok 70000) = Inr () \<and>
   Map_get (data (fst (snd (initialize default_store
                              (snd (snd (saveData store_two no_files io_ok))) io_ok 70000)))) ''test'' =
     Some \<lparr>val = JNum 1, expiry = None\<rparr> \<and>
   Map_get (data (fst (snd (initialize default_store
                              (snd (snd (saveData store_two no_files io_ok))) io_ok 70000)))) ''b'' = None \<and>
   currentSize (fst (snd (initialize default_store
                           (snd (snd (saveData store_two no_files io_ok))) io_ok 70000))) = 34 \<and>
   fst (initialize default_store (snd (snd (saveData store_two no_files io_ok)))
          (io_ok\<lparr>flock_error := Some ELOCKED\<rparr>) 70000) = Inl StoreBusy \<and>
   fst (initialize default_store (snd (snd (saveData store_two no_files io_ok)))
          (io_ok\<lparr>read_error := Some EIO\<rparr>) 70000) = Inl (IOFailure EIO) \<and>
   fst (initialize default_store (snd (snd (saveData store_two no_files io_ok)))
          (io_ok\<lparr>read_error := Some ENOENT\<rparr>) 70000) = Inr () \<and>
   distinct (map fst (data store_kk)) \<and>
   ''__proto__'' \<notin> fst ` set (data store_kk) \<and>
   fst (saveData store_kk no_files io_ok) = Inr () \<and>
   maxFileSize small_store < file_size (Document (data store_kk)) \<and>
   fst (initialize small_store (snd (snd (saveData store_kk no_files io_ok))) io_ok 1730527199500) =
     Inl QuotaExceeded"
proof -
  let ?opts = "\<lparr>opt_maxBatchSize = None, opt_maxFileSize = None\<rparr>"
  let ?small = "\<lparr>opt_maxBatchSize = None, opt_maxFileSize = Some 40\<rparr>"
  let ?busy = "io_ok\<lparr>flock_error := Some ELOCKED\<rparr>"
  let ?unread = "io_ok\<lparr>read_error := Some EIO\<rparr>"
  let ?gone = "io_ok\<lparr>read_error := Some ENOENT\<rparr>"
  have d: "distinct (map fst (data store_two))"
    and p: "''__proto__'' \<notin> fst ` set (data store_two)"
    and s: "fst (saveData store_two no_files io_ok) = Inr ()"
    and f: "file_size (Document (data store_two)) \<le> maxFileSize (KVStore (filePath store_two) ?opts)"
    and r: "read_error io_ok = None" and l: "flock_error io_ok = None"
    and k: "KVStore (filePath store_two) ?opts = default_store"
    and m: "Map_get (data store_two) ''test'' = Some \<lparr>val = JNum 1, expiry = None\<rparr>"
      "Map_get (data store_two) ''b'' = Some \<lparr>val = JStr ''x'', expiry = Some 61500\<rparr>"
    and u: "unexpired 70000 \<lparr>val = JNum 1, expiry = None\<rparr>"
      "\<not> unexpired 70000 \<lparr>val = JStr ''x'', expiry = Some 61500\<rparr>"
    and c: "currentSize (fst (snd (initialize default_store
                           (snd (snd (saveData store_two no_files io_ok))) io_ok 70000))) = 34"
    and b: "flock_error ?busy = Some ELOCKED"
    and e: "flock_error ?unread = None" "read_error ?unread = Some EIO" "EIO \<noteq> ENOENT"
    and g: "flock_error ?gone = None" "read_error ?gone = Some ENOENT"
    by code_simp+
  have d': "distinct (map fst (data store_kk))"
    and p': "''__proto__'' \<notin> fst ` set (data store_kk)"
    and s': "fst (saveData store_kk no_files io_ok) = Inr ()"
    and f': "maxFileSize (KVStore (filePath store_kk) ?small) < file_size (Document (data store_kk))"
    and k': "KVStore (filePath store_kk) ?small = small_store"
    by code_simp+
  from reload_after_save [OF d p s, of io_ok ?opts 70000] k m u c f r l
  have loaded: "fst (initialize default_store (snd (snd (saveData store_two no_files io_ok))) io_ok 70000) = Inr () \<and>
      Map_get (data (fst (snd (initialize default_store
                              (snd (snd (saveData store_two no_files io_ok))) io_ok 70000)))) ''test'' =
        Some \<lparr>val = JNum 1, expiry = None\<rparr> \<and>
      Map_get (data (fst (snd (initialize default_store
                              (snd (snd (saveData store_two no_files io_ok))) io_ok 70000)))) ''b'' = None"
    by simp
  from reload_after_save [OF d p s, of ?busy ?opts 70000] k b
  have busy: "fst (initialize default_store (snd (snd (saveData store_two no_files io_ok))) ?busy 70000) =
      Inl StoreBusy"
    by simp
  from reload_after_save [OF d p s, of ?unread ?opts 70000] k e
  have unread: "fst (initialize default_store (snd (snd (saveData store_two no_files io_ok))) ?unread 70000) =
      Inl (IOFailure EIO)"
    by simp
  from reload_after_save [OF d p s, of ?gone ?opts 70000] k g
  have gone: "fst (initialize default_store (snd (snd (saveData store_two no_files io_ok))) ?gone 70000) =
      Inr ()"
    by simp
  from reload_after_save [OF d' p' s', of io_ok ?small 1730527199500] k' f' r l
  have large: "fst (initialize small_store (snd (snd (saveData store_kk no_files io_ok))) io_ok 1730527199500) =
      Inl QuotaExceeded"
    by simp
  from d p s l r f k c loaded busy unread gone d' p' s' f' k' large show ?thesis by simp
qed

text \<open>
  A store limited to 40 bytes saves the key \<open>kk\<close> with an expiry (estimated size 32, the
  file has 41 bytes); a store initialised on that file while the entry has not expired
  fails with \<open>QuotaExceeded\<close> and holds nothing. A saved entry with expiry 0 is loaded
  at time 6000. A store initialised on the saved file while the lock of the file is held
  fails with \<open>StoreBusy\<close>.
\<close>

theorem reload_counterexample:
  "Map_get (data store_kk) ''kk'' = Some \<lparr>val = JNum 1, expiry = Some 1730527200000\<rparr> \<and>
   fst (saveData store_kk no_files io_ok) = Inr () \<and>
   total_size (data store_kk) = 32 \<and>
   file_size (Document (data store_kk)) = 41 \<and>
   maxFileSize small_store = 40 \<and>
   fst (initialize small_store (snd (snd (saveData store_kk no_files io_ok))) io_ok 1730527199500) =
     Inl QuotaExceeded \<and>
   data (fst (snd (initialize small_store (snd (snd (saveData store_kk no_files io_ok))) io_ok 1730527199500))) = [] \<and>
   fst (saveData store_zero_expiry no_files io_ok) = Inr () \<and>
   fst (initialize default_store (snd (snd (saveData store_zero_expiry no_files io_ok))) io_ok 6000) = Inr () \<and>
   Map_get (data (fst (snd (initialize default_store
                              (snd (snd (saveData store_zero_expiry no_files io_ok))) io_ok 6000)))) ''k'' =
     Some \<lparr>val = JNum 1, expiry = Some 0\<rparr> \<and>
   fst (initialize default_store (snd (snd (saveData store_with_test no_files io_ok)))
          (io_ok\<lparr>flock_error := Some ELOCKED\<rparr>) 3000) = Inl StoreBusy"
  by code_simp

text \<open>
  An entry under the key \<open>__proto__\<close> is counted by the save but not written to the file:
  the store that holds it is saved with success, and a store initialised on the saved
  file is empty.
\<close>

lemma proto_key_not_saved:
  "Map_get (data store_proto) ''__proto__'' = Some \<lparr>val = JNum 1, expiry = None\<rparr> \<and>
   fst (saveData store_proto no_files io_ok) = Inr () \<and>
   snd (snd (saveData store_proto no_files io_ok)) ''kv.json'' = Some (Document []) \<and>
   fst (initialize default_store (snd (snd (saveData store_proto no_files io_ok))) io_ok 2000) = Inr () \<and>
   data (fst (snd (initialize default_store (snd (snd (saveData store_proto no_files io_ok))) io_ok 2000))) = []"
  by code_simp

end
